theory Spec2Isabelle
  imports Complex_Main "HOL-Library.Multiset" "HOL-Library.Option_ord" "HOL-Library.Sublist"
begin

section \<open>Configuration constants (src/app/config.py)\<close>

text \<open>
  \<^verbatim>\<open>SEVERITY_WEIGHTS = {"Major": 3, "Moderate": 2, "Minor": 1}\<close>: a dict, iterated in
  insertion order by \<^verbatim>\<open>.items()\<close>; kept as an association list.
\<close>

definition SEVERITY_WEIGHTS :: "(string \<times> int) list" where
  "SEVERITY_WEIGHTS = [(''Major'', 3), (''Moderate'', 2), (''Minor'', 1)]"

definition MIN_CLEARANCE_MINUTES :: real where
  "MIN_CLEARANCE_MINUTES = 1"

definition MAX_CLEARANCE_MINUTES :: real where
  "MAX_CLEARANCE_MINUTES = 1440"

definition DEFAULT_CLUSTER_RADIUS_MILES :: real where
  "DEFAULT_CLUSTER_RADIUS_MILES = 1 / 2"

definition MIN_CLUSTER_SIZE :: nat where
  "MIN_CLUSTER_SIZE = 3"

section \<open>Danger score (src/app/calculations.py, calculate_danger_score)\<close>

text \<open>
  A pandas Series of severity values is a list of cells; a cell is a string or missing
  (None / NaN), and a missing cell equals no severity name.
  \<^verbatim>\<open>(severity_series == severity).sum()\<close> counts the cells equal to the name.
\<close>

definition series_eq_sum :: "string option list \<Rightarrow> string \<Rightarrow> int" where
  "series_eq_sum severity_series severity =
     int (length (filter (\<lambda>cell. cell = Some severity) severity_series))"

definition calculate_danger_score :: "string option list \<Rightarrow> int" where
  "calculate_danger_score severity_series =
     fold (\<lambda>(severity, weight) score. score + series_eq_sum severity_series severity * weight)
       SEVERITY_WEIGHTS 0"

section \<open>Incident rows (src/database.py, the columns of traffic_events)\<close>

text \<open>
  One row of the \<^verbatim>\<open>traffic_events\<close> table, which is also one row of the DataFrame that
  \<^verbatim>\<open>query_events\<close> hands to the analytics. A nullable cell is an option (SQL NULL,
  Python None, pandas NaN / NaT). Timestamps are whole seconds since an epoch, so that
  the calendar day of \<open>t\<close> is \<open>t div 86400\<close>. The identity \<^verbatim>\<open>event_id\<close> is the
  primary key. The column \<^verbatim>\<open>created_at\<close> is neither written by \<^verbatim>\<open>upsert_events\<close>
  nor read by \<^verbatim>\<open>query_events\<close> and is left out.
\<close>

record event =
  event_id :: int
  category :: "string option"
  title :: "string option"
  location :: "string option"
  full_location :: "string option"
  description :: "string option"
  region :: "string option"
  severity :: "string option"
  county :: "string option"
  city :: "string option"
  road :: "string option"
  road_display :: "string option"
  road_type :: "string option"
  cross_street :: "string option"
  direction :: "string option"
  mile_marker :: "real option"
  start_time :: "int option"
  end_time :: "int option"
  last_updated :: "int option"
  active :: "int option"
  start_latitude :: "real option"
  start_longitude :: "real option"
  end_latitude :: "real option"
  end_longitude :: "real option"
  lane_closures :: "string option"

text \<open>A row with every nullable cell empty, used to write concrete rows briefly.\<close>

definition blank_event :: "int \<Rightarrow> event" where
  "blank_event i =
     \<lparr>event_id = i, category = None, title = None, location = None, full_location = None,
      description = None, region = None, severity = None, county = None, city = None,
      road = None, road_display = None, road_type = None, cross_street = None,
      direction = None, mile_marker = None, start_time = None, end_time = None,
      last_updated = None, active = None, start_latitude = None, start_longitude = None,
      end_latitude = None, end_longitude = None, lane_closures = None\<rparr>"

section \<open>Great-circle distance (calculations.py haversine_distance, analysis.py haversine)\<close>

text \<open>
  The source computes in IEEE double precision with numpy; the model computes in the
  reals, and keeps numpy's answer outside the domain of a function: \<^verbatim>\<open>np.sqrt\<close> of a
  negative number and \<^verbatim>\<open>np.arcsin\<close> of a number outside [-1, 1] are NaN (with a
  warning, no exception), and NaN propagates through arithmetic. NaN is None here.
  \<^verbatim>\<open>np.radians\<close> is multiplication by \<open>pi / 180\<close>. Rounding is not modelled:
  where a double-precision intermediate differs from the exact one, the two
  computations can part, so nothing below speaks about the effect of rounding.
\<close>

definition radians :: "real \<Rightarrow> real" where
  "radians deg = deg * pi / 180"

definition np_sqrt :: "real \<Rightarrow> real option" where
  "np_sqrt x = (if x < 0 then None else Some (sqrt x))"

definition np_arcsin :: "real \<Rightarrow> real option" where
  "np_arcsin x = (if x < - 1 \<or> 1 < x then None else Some (arcsin x))"

text \<open>The value \<^verbatim>\<open>a\<close> of both source functions (the same expression in each).\<close>

definition haversine_a :: "real \<Rightarrow> real \<Rightarrow> real \<Rightarrow> real \<Rightarrow> real" where
  "haversine_a lat1 lon1 lat2 lon2 =
     (let lat1 = radians lat1; lon1 = radians lon1; lat2 = radians lat2; lon2 = radians lon2;
          dlat = lat2 - lat1;
          dlon = lon2 - lon1
      in (sin (dlat / 2))\<^sup>2 + cos lat1 * cos lat2 * (sin (dlon / 2))\<^sup>2)"

text \<open>
  \<^verbatim>\<open>c = 2 * np.arcsin(np.sqrt(a))\<close>, as a function of \<^verbatim>\<open>a\<close>: the source passes
  \<^verbatim>\<open>a\<close> to \<^verbatim>\<open>np.sqrt\<close> as it is.
\<close>

definition central_angle :: "real \<Rightarrow> real option" where
  "central_angle a = map_option (\<lambda>asin. 2 * asin) (Option.bind (np_sqrt a) np_arcsin)"

definition haversine_distance :: "real \<Rightarrow> real \<Rightarrow> real \<Rightarrow> real \<Rightarrow> real option" where
  "haversine_distance lat1 lon1 lat2 lon2 =
     (let R = 3959;
          a = haversine_a lat1 lon1 lat2 lon2;
          c = central_angle a
      in map_option (\<lambda>c. R * c) c)"

text \<open>\<^verbatim>\<open>haversine\<close> of analysis.py takes the longitude first and answers in meters.\<close>

definition haversine :: "real \<Rightarrow> real \<Rightarrow> real \<Rightarrow> real \<Rightarrow> real option" where
  "haversine lon1 lat1 lon2 lat2 =
     (let a = haversine_a lat1 lon1 lat2 lon2;
          c = central_angle a;
          r = 6371000
      in map_option (\<lambda>c. c * r) c)"

section \<open>Clearance time (calculations.py, calculate_avg_clearance_minutes)\<close>

text \<open>
  The argument is None or a DataFrame (a list of rows). \<^verbatim>\<open>dropna\<close> keeps the rows
  whose Start Time and End Time are both present; the duration of a row is
  \<^verbatim>\<open>(end - start).total_seconds() / 60\<close>. The columns are already timestamps
  (\<^verbatim>\<open>query_events\<close> parses them), so \<^verbatim>\<open>pd.to_datetime\<close> does not raise and the
  \<^verbatim>\<open>except\<close> branch is not reached.
\<close>

definition dropna_times :: "event list \<Rightarrow> (int \<times> int) list" where
  "dropna_times crashes =
     List.map_filter
       (\<lambda>row. case (start_time row, end_time row) of
                 (Some s, Some e) \<Rightarrow> Some (s, e)
               | _ \<Rightarrow> None)
       crashes"

definition clearance_durations :: "(int \<times> int) list \<Rightarrow> real list" where
  "clearance_durations crashes_with_times =
     map (\<lambda>(s, e). real_of_int (e - s) / 60) crashes_with_times"

definition mean :: "real list \<Rightarrow> real" where
  "mean xs = sum_list xs / real (length xs)"

definition calculate_avg_clearance_minutes :: "event list option \<Rightarrow> real option" where
  "calculate_avg_clearance_minutes crashes =
     (case crashes of
        None \<Rightarrow> None
      | Some rows \<Rightarrow>
          if rows = [] then None
          else
            let crashes_with_times = dropna_times rows in
            if crashes_with_times = [] then None
            else
              let durations = clearance_durations crashes_with_times;
                  valid_durations =
                    filter (\<lambda>d. d > MIN_CLEARANCE_MINUTES \<and> d < MAX_CLEARANCE_MINUTES) durations
              in if valid_durations = [] then None else Some (mean valid_durations))"

section \<open>Work-zone correlation (calculations.py, calculate_construction_zone_crashes)\<close>

text \<open>
  \<^verbatim>\<open>roadwork_by_location\<close> is a dict from (road, county) to the list of the anchors'
  mile markers, in row order. Rows whose road or county is missing are skipped.
\<close>

type_synonym roadwork_index = "(string \<times> string) \<rightharpoonup> real option list"

fun build_roadwork_index :: "event list \<Rightarrow> roadwork_index \<Rightarrow> roadwork_index" where
  "build_roadwork_index [] roadwork_by_location = roadwork_by_location"
| "build_roadwork_index (rw # rest) roadwork_by_location =
     (case (road rw, county rw) of
        (Some r, Some c) \<Rightarrow>
          build_roadwork_index rest
            (roadwork_by_location((r, c) \<mapsto>
               (case roadwork_by_location (r, c) of None \<Rightarrow> [] | Some anchors \<Rightarrow> anchors)
               @ [mile_marker rw]))
      | _ \<Rightarrow> build_roadwork_index rest roadwork_by_location)"

text \<open>
  The inner \<^verbatim>\<open>for ... else\<close> over the anchors of the crash's key. The loop carries
  the counter; the flag of the result says whether the loop was left through
  \<^verbatim>\<open>break\<close> (after counting the crash). When the anchors are exhausted without a
  \<^verbatim>\<open>break\<close>, the \<^verbatim>\<open>else\<close> clause of the loop runs, and it counts the crash too.
\<close>

fun scan_anchors :: "real \<Rightarrow> real option list \<Rightarrow> nat \<Rightarrow> nat \<times> bool" where
  "scan_anchors crash_mm [] construction_crashes = (construction_crashes, False)"
| "scan_anchors crash_mm (rw_mm # rest) construction_crashes =
     (case rw_mm of
        Some m \<Rightarrow>
          if \<bar>crash_mm - m\<bar> \<le> 2 then (construction_crashes + 1, True)
          else scan_anchors crash_mm rest construction_crashes
      | None \<Rightarrow> scan_anchors crash_mm rest construction_crashes)"

definition count_crash :: "roadwork_index \<Rightarrow> event \<Rightarrow> nat \<Rightarrow> nat" where
  "count_crash roadwork_by_location crash construction_crashes =
     (case (road crash, county crash) of
        (Some crash_road, Some crash_county) \<Rightarrow>
          (case roadwork_by_location (crash_road, crash_county) of
             None \<Rightarrow> construction_crashes
           | Some anchors \<Rightarrow>
               (case mile_marker crash of
                  Some crash_mm \<Rightarrow>
                    (case scan_anchors crash_mm anchors construction_crashes of
                       (counted, True) \<Rightarrow> counted
                     | (counted, False) \<Rightarrow> counted + 1)
                | None \<Rightarrow> construction_crashes + 1))
      | _ \<Rightarrow> construction_crashes)"

definition calculate_construction_zone_crashes :: "event list \<Rightarrow> event list \<Rightarrow> nat" where
  "calculate_construction_zone_crashes crashes roadwork =
     (if roadwork = [] \<or> crashes = [] then 0
      else
        let roadwork_by_location = build_roadwork_index roadwork Map.empty
        in fold (count_crash roadwork_by_location) crashes 0)"

text \<open>
  The rule of the function's docstring and of the specification, written from their
  words: a crash with road and county counts when some roadwork shares its key and
  either the crash has a mile marker and some anchor of the key is within 2 miles, or
  the crash has no mile marker, or no anchor of the key has one.
\<close>

definition documented_in_work_zone :: "event list \<Rightarrow> event \<Rightarrow> bool" where
  "documented_in_work_zone roadwork crash =
     (case (road crash, county crash) of
        (Some r, Some c) \<Rightarrow>
          (let anchors = map mile_marker (filter (\<lambda>rw. road rw = Some r \<and> county rw = Some c) roadwork)
           in anchors \<noteq> [] \<and>
              (case mile_marker crash of
                 None \<Rightarrow> True
               | Some mm \<Rightarrow>
                   list_ex (\<lambda>a. case a of Some m \<Rightarrow> \<bar>mm - m\<bar> \<le> 2 | None \<Rightarrow> False) anchors
                   \<or> list_all (\<lambda>a. a = None) anchors))
      | _ \<Rightarrow> False)"

section \<open>Hot-spot clustering (calculations.py, find_crash_clusters)\<close>

text \<open>
  \<^verbatim>\<open>crashes.dropna(subset=["Start Latitude", "Start Longitude"])\<close>, then the
  \<^verbatim>\<open>coords\<close> array. Indices below are positions in this filtered frame.
\<close>

type_synonym coord = "real \<times> real"

definition dropna_coords :: "event list \<Rightarrow> coord list" where
  "dropna_coords crashes =
     List.map_filter
       (\<lambda>row. case (start_latitude row, start_longitude row) of
                 (Some lat, Some lon) \<Rightarrow> Some (lat, lon)
               | _ \<Rightarrow> None)
       crashes"

definition within_radius :: "coord list \<Rightarrow> real \<Rightarrow> nat \<Rightarrow> nat \<Rightarrow> bool" where
  "within_radius coords radius_miles i j =
     (let dist = haversine_distance (fst (coords ! i)) (snd (coords ! i))
                   (fst (coords ! j)) (snd (coords ! j))
      in case dist of Some d \<Rightarrow> d \<le> radius_miles | None \<Rightarrow> False)"

text \<open>The inner loop \<^verbatim>\<open>for j in range(i + 1, n)\<close> over \<^verbatim>\<open>cluster_points\<close> and \<^verbatim>\<open>assigned\<close>.\<close>

fun absorb_later ::
  "coord list \<Rightarrow> real \<Rightarrow> nat \<Rightarrow> nat list \<Rightarrow> nat list \<times> nat set \<Rightarrow> nat list \<times> nat set" where
  "absorb_later coords radius_miles i [] (cluster_points, assigned) = (cluster_points, assigned)"
| "absorb_later coords radius_miles i (j # js) (cluster_points, assigned) =
     (if j \<in> assigned then absorb_later coords radius_miles i js (cluster_points, assigned)
      else if within_radius coords radius_miles i j
        then absorb_later coords radius_miles i js (cluster_points @ [j], insert j assigned)
        else absorb_later coords radius_miles i js (cluster_points, assigned))"

text \<open>
  The state of the outer loop: the set \<^verbatim>\<open>assigned\<close>, the column \<^verbatim>\<open>cluster_id\<close> of the
  frame (initially -1 everywhere) and the counter \<^verbatim>\<open>cluster_id\<close>.
\<close>

record cluster_state =
  assigned :: "nat set"
  cluster_id_column :: "int list"
  cluster_id :: int

definition write_cluster_id :: "nat list \<Rightarrow> int \<Rightarrow> int list \<Rightarrow> int list" where
  "write_cluster_id cluster_points cid column = fold (\<lambda>idx col. col[idx := cid]) cluster_points column"

fun seed_loop :: "coord list \<Rightarrow> real \<Rightarrow> nat list \<Rightarrow> cluster_state \<Rightarrow> cluster_state" where
  "seed_loop coords radius_miles [] st = st"
| "seed_loop coords radius_miles (i # rest) st =
     (if i \<in> assigned st then seed_loop coords radius_miles rest st
      else
        case absorb_later coords radius_miles i [i + 1 ..< length coords]
               ([i], insert i (assigned st)) of
          (cluster_points, assigned') \<Rightarrow>
            if length cluster_points \<ge> MIN_CLUSTER_SIZE
            then seed_loop coords radius_miles rest
                   \<lparr>assigned = assigned',
                    cluster_id_column =
                      write_cluster_id cluster_points (cluster_id st) (cluster_id_column st),
                    cluster_id = cluster_id st + 1\<rparr>
            else seed_loop coords radius_miles rest (st\<lparr>assigned := assigned'\<rparr>))"

text \<open>
  Lines 139 to 175 of \<^verbatim>\<open>find_crash_clusters\<close>: the \<^verbatim>\<open>cluster_id\<close> column of the
  filtered frame when the loops end. The value the function returns is aggregated from
  the rows of this column that are not -1 (count, mean coordinates, first labels,
  sorted by count); that aggregation is not modelled.
\<close>

definition find_crash_clusters_ids :: "event list \<Rightarrow> real \<Rightarrow> int list" where
  "find_crash_clusters_ids crashes radius_miles =
     (let coords = dropna_coords crashes;
          n = length coords
      in cluster_id_column
           (seed_loop coords radius_miles [0 ..< n]
              \<lparr>assigned = {}, cluster_id_column = replicate n (- 1), cluster_id = 0\<rparr>))"

text \<open>
  The algorithm in the words of the specification, over the list of incidents that are
  still unassigned, in input order: the first one is the seed; the later ones within
  the radius of the seed join its group; all members leave the list, whether or not the
  group is committed; the others are tried again with the next seed.
\<close>

fun seed_groups :: "(nat \<Rightarrow> nat \<Rightarrow> bool) \<Rightarrow> nat list \<Rightarrow> nat list list" where
  "seed_groups near [] = []"
| "seed_groups near (seed # later) =
     (seed # filter (near seed) later) # seed_groups near (filter (\<lambda>j. \<not> near seed j) later)"

text \<open>A group is committed, with the next fresh cluster id, when it has at least 3 members.\<close>

fun commit_groups :: "nat list list \<Rightarrow> int \<Rightarrow> int list \<Rightarrow> int list" where
  "commit_groups [] next_id column = column"
| "commit_groups (g # gs) next_id column =
     (if length g \<ge> 3
      then commit_groups gs (next_id + 1) (fold (\<lambda>idx col. col[idx := next_id]) g column)
      else commit_groups gs next_id column)"

definition distance_at_most :: "coord \<Rightarrow> coord \<Rightarrow> real \<Rightarrow> bool" where
  "distance_at_most p q radius_miles =
     (case haversine_distance (fst p) (snd p) (fst q) (snd q) of
        Some d \<Rightarrow> d \<le> radius_miles
      | None \<Rightarrow> False)"

definition spec_cluster_ids :: "coord list \<Rightarrow> real \<Rightarrow> int list" where
  "spec_cluster_ids coords radius_miles =
     commit_groups
       (seed_groups (\<lambda>seed j. distance_at_most (coords ! seed) (coords ! j) radius_miles)
          [0 ..< length coords])
       0 (replicate (length coords) (- 1))"

section \<open>The incident store (src/database.py)\<close>

text \<open>
  The state of the database file: the rows of \<^verbatim>\<open>traffic_events\<close>, and the number of
  connections opened so far (\<^verbatim>\<open>get_connection\<close>), so that opening one is visible.
\<close>

record database =
  table_rows :: "event list"
  connections_opened :: nat

definition get_connection :: "database \<Rightarrow> database" where
  "get_connection db = db\<lparr>connections_opened := connections_opened db + 1\<rparr>"

text \<open>
  The schema of \<^verbatim>\<open>init_db\<close> declares \<^verbatim>\<open>category\<close>, \<^verbatim>\<open>start_time\<close>,
  \<^verbatim>\<open>start_latitude\<close> and \<^verbatim>\<open>start_longitude\<close> NOT NULL. A NULL in such a column of
  \<^verbatim>\<open>INSERT OR REPLACE\<close> has no default to fall back on, and SQLite aborts the statement
  with an integrity error that names the column.
\<close>

datatype db_error = IntegrityError string

definition not_null_violation :: "event \<Rightarrow> string option" where
  "not_null_violation e =
     (if category e = None then Some ''category''
      else if start_time e = None then Some ''start_time''
      else if start_latitude e = None then Some ''start_latitude''
      else if start_longitude e = None then Some ''start_longitude''
      else None)"

text \<open>
  One \<^verbatim>\<open>INSERT OR REPLACE\<close>: a row with the same primary key is deleted before the new
  row is inserted. The record carries an identity that fits SQLite's 64-bit integer; a
  record whose id is None (SQLite then assigns a fresh rowid) or does not fit 64 bits
  (the binding raises OverflowError) is not modelled.
\<close>

definition insert_or_replace :: "event \<Rightarrow> event list \<Rightarrow> db_error + event list" where
  "insert_or_replace e tbl =
     (case not_null_violation e of
        Some col \<Rightarrow> Inl (IntegrityError col)
      | None \<Rightarrow> Inr (filter (\<lambda>x. event_id x \<noteq> event_id e) tbl @ [e]))"

fun executemany :: "event list \<Rightarrow> event list \<Rightarrow> db_error + event list" where
  "executemany [] tbl = Inr tbl"
| "executemany (e # events) tbl =
     (case insert_or_replace e tbl of
        Inl err \<Rightarrow> Inl err
      | Inr tbl' \<Rightarrow> executemany events tbl')"

text \<open>
  \<^verbatim>\<open>upsert_events\<close>: an empty list returns 0 before any connection is opened. When a
  statement fails, the exception leaves the function before \<^verbatim>\<open>commit\<close>, the
  connection is closed and the rows stay as they were. \<^verbatim>\<open>cursor.rowcount\<close> after
  \<^verbatim>\<open>executemany\<close> is the number of statements run, one per event.
\<close>

definition upsert_events :: "event list \<Rightarrow> database \<Rightarrow> (db_error + nat) \<times> database" where
  "upsert_events events db =
     (if events = [] then (Inr 0, db)
      else
        let conn = get_connection db in
        case executemany events (table_rows conn) of
          Inl err \<Rightarrow> (Inl err, conn)
        | Inr tbl' \<Rightarrow> (Inr (length events), conn\<lparr>table_rows := tbl'\<rparr>))"

definition get_event_count :: "database \<Rightarrow> nat \<times> database" where
  "get_event_count db = (let conn = get_connection db in (length (table_rows conn), conn))"

subsection \<open>query_events\<close>

text \<open>
  The arguments of \<^verbatim>\<open>query_events\<close>. A datetime is always truthy, so
  \<^verbatim>\<open>if start_date:\<close> tests for None; \<^verbatim>\<open>if counties and "All" not in counties\<close> tests
  for a list that is present, not empty and without the sentinel.
\<close>

record query_filters =
  start_date :: "int option"
  end_date :: "int option"
  counties :: "string list option"
  categories :: "string list option"
  severities :: "string list option"
  active_only :: bool

text \<open>
  A condition of the WHERE clause evaluates, on a row, to true, false or NULL (None).
  A comparison or \<^verbatim>\<open>IN\<close> on a NULL cell is NULL; \<^verbatim>\<open>AND\<close> is SQL's three-valued
  conjunction; WHERE keeps the rows on which the clause is true.
\<close>

type_synonym condition = "event \<Rightarrow> bool option"

definition sql_date :: "int \<Rightarrow> int" where
  "sql_date t = t div 86400"

definition is_not_null :: "(event \<Rightarrow> 'a option) \<Rightarrow> condition" where
  "is_not_null col row = Some (col row \<noteq> None)"

definition date_start_time_ge :: "int \<Rightarrow> condition" where
  "date_start_time_ge d row = map_option (\<lambda>t. sql_date t \<ge> sql_date d) (start_time row)"

definition date_start_time_le :: "int \<Rightarrow> condition" where
  "date_start_time_le d row = map_option (\<lambda>t. sql_date t \<le> sql_date d) (start_time row)"

definition column_in :: "(event \<Rightarrow> string option) \<Rightarrow> string list \<Rightarrow> condition" where
  "column_in col vals row = map_option (\<lambda>v. v \<in> set vals) (col row)"

definition active_eq_1 :: condition where
  "active_eq_1 row = map_option (\<lambda>a. a = 1) (active row)"

fun sql_and :: "bool option \<Rightarrow> bool option \<Rightarrow> bool option" where
  "sql_and (Some False) _ = Some False"
| "sql_and _ (Some False) = Some False"
| "sql_and (Some True) (Some True) = Some True"
| "sql_and _ _ = None"

definition list_filter_condition ::
  "(event \<Rightarrow> string option) \<Rightarrow> string list option \<Rightarrow> condition list" where
  "list_filter_condition col vals =
     (case vals of
        None \<Rightarrow> []
      | Some vs \<Rightarrow> if vs \<noteq> [] \<and> ''All'' \<notin> set vs then [column_in col vs] else [])"

definition query_conditions :: "query_filters \<Rightarrow> condition list" where
  "query_conditions f =
     [is_not_null start_latitude, is_not_null start_longitude]
     @ (case start_date f of Some d \<Rightarrow> [date_start_time_ge d] | None \<Rightarrow> [])
     @ (case end_date f of Some d \<Rightarrow> [date_start_time_le d] | None \<Rightarrow> [])
     @ list_filter_condition county (counties f)
     @ list_filter_condition category (categories f)
     @ list_filter_condition severity (severities f)
     @ (if active_only f then [active_eq_1] else [])"

text \<open>\<^verbatim>\<open>" AND ".join(conditions)\<close>; the list is never empty.\<close>

definition where_clause :: "condition list \<Rightarrow> condition" where
  "where_clause conditions row = foldl sql_and (Some True) (map (\<lambda>c. c row) conditions)"

text \<open>
  \<^verbatim>\<open>ORDER BY start_time DESC\<close>: NULL sorts below every value, so it comes last. The
  order among rows with equal start times is not fixed by SQL; the model takes one.
\<close>

definition order_by_start_time_desc :: "event list \<Rightarrow> event list" where
  "order_by_start_time_desc rows = rev (sort_key start_time rows)"

definition query_events :: "query_filters \<Rightarrow> database \<Rightarrow> event list \<times> database" where
  "query_events f db =
     (let conn = get_connection db;
          selected = filter (\<lambda>row. where_clause (query_conditions f) row = Some True)
                       (table_rows conn)
      in (order_by_start_time_desc selected, conn))"

text \<open>
  The filters in the words of the specification: each supplied filter constrains its
  field, and the filters combine by conjunction. A date bound compares calendar days,
  inclusively; a list filter is membership; an omitted filter, an empty list or a list
  with the sentinel \<^verbatim>\<open>"All"\<close> constrains nothing.
\<close>

definition unrestricted :: "string list option \<Rightarrow> bool" where
  "unrestricted vals = (case vals of None \<Rightarrow> True | Some vs \<Rightarrow> vs = [] \<or> ''All'' \<in> set vs)"

definition member_of :: "string option \<Rightarrow> string list option \<Rightarrow> bool" where
  "member_of cell vals =
     (case (cell, vals) of (Some v, Some vs) \<Rightarrow> v \<in> set vs | _ \<Rightarrow> False)"

definition on_or_after :: "int option \<Rightarrow> int option \<Rightarrow> bool" where
  "on_or_after cell bound =
     (case bound of
        None \<Rightarrow> True
      | Some d \<Rightarrow> (case cell of Some t \<Rightarrow> d div 86400 \<le> t div 86400 | None \<Rightarrow> False))"

definition on_or_before :: "int option \<Rightarrow> int option \<Rightarrow> bool" where
  "on_or_before cell bound =
     (case bound of
        None \<Rightarrow> True
      | Some d \<Rightarrow> (case cell of Some t \<Rightarrow> t div 86400 \<le> d div 86400 | None \<Rightarrow> False))"

definition satisfies_filters :: "query_filters \<Rightarrow> event \<Rightarrow> bool" where
  "satisfies_filters f row =
     (on_or_after (start_time row) (start_date f)
      \<and> on_or_before (start_time row) (end_date f)
      \<and> (unrestricted (counties f) \<or> member_of (county row) (counties f))
      \<and> (unrestricted (categories f) \<or> member_of (category row) (categories f))
      \<and> (unrestricted (severities f) \<or> member_of (severity row) (severities f))
      \<and> (if active_only f then active row = Some 1 else True))"

definition has_start_coordinates :: "event \<Rightarrow> bool" where
  "has_start_coordinates row = (start_latitude row \<noteq> None \<and> start_longitude row \<noteq> None)"

definition no_filters :: query_filters where
  "no_filters =
     \<lparr>start_date = None, end_date = None, counties = None, categories = None,
      severities = None, active_only = False\<rparr>"

section \<open>Ingestion (src/data/api.py)\<close>

text \<open>
  The decoded JSON of the upstream API. A key that is absent or null is None. The text
  helpers are Python's \<^verbatim>\<open>str.replace\<close> and \<^verbatim>\<open>str.strip\<close> (ASCII whitespace).
\<close>

function str_replace :: "string \<Rightarrow> string \<Rightarrow> string \<Rightarrow> string" where
  "str_replace old new [] = (if old = [] then new else [])"
| "str_replace old new (c # cs) =
     (if old = [] then new @ c # str_replace old new cs
      else if prefix old (c # cs)
        then new @ str_replace old new (drop (length old - 1) cs)
        else c # str_replace old new cs)"
  by pat_completeness auto
termination
  by (relation "measure (\<lambda>(old, new, s). length s)") auto

definition is_space :: "char \<Rightarrow> bool" where
  "is_space c =
     (c \<in> set [CHR 0x09, CHR 0x0A, CHR 0x0B, CHR 0x0C, CHR 0x0D,
               CHR 0x1C, CHR 0x1D, CHR 0x1E, CHR 0x1F, CHR 0x20])"

definition str_strip :: "string \<Rightarrow> string" where
  "str_strip s = rev (dropWhile is_space (rev (dropWhile is_space s)))"

fun join_comma :: "string list \<Rightarrow> string" where
  "join_comma [] = []"
| "join_comma [x] = x"
| "join_comma (x # y # rest) = x @ '', '' @ join_comma (y # rest)"

record api_lane =
  lane_state :: "string option"
  lane_type :: string
  lane_placement :: int

record api_lane_direction =
  lanes_direction :: string
  lanes :: "api_lane list"

record api_location =
  loc_latitude :: "real option"
  loc_longitude :: "real option"
  loc_county :: "string option"
  loc_city :: "string option"
  loc_routeDesignator :: "string option"
  loc_displayRouteDesignator :: "string option"
  loc_routeDesignatorType :: "string option"
  loc_displayCrossStreet :: "string option"
  loc_direction :: "string option"
  loc_linearReference :: "real option"

record api_event =
  ev_id :: int
  ev_type :: "string option"
  ev_title :: "string option"
  ev_shortSubTitle :: "string option"
  ev_subTitle :: "string option"
  ev_description :: "string option"
  ev_responsibleRegion :: "string option"
  ev_severity :: "string option"
  ev_startLocation :: "api_location option"
  ev_endLocation :: "api_location option"
  ev_start :: "string option"
  ev_end :: "string option"
  ev_lastUpdatedAt :: "string option"
  ev_active :: "bool option"
  ev_laneDirections :: "api_lane_direction list"

text \<open>\<^verbatim>\<open>event.get("startLocation") or {}\<close>: the empty dict answers None to every key.\<close>

definition empty_location :: api_location where
  "empty_location =
     \<lparr>loc_latitude = None, loc_longitude = None, loc_county = None, loc_city = None,
      loc_routeDesignator = None, loc_displayRouteDesignator = None,
      loc_routeDesignatorType = None, loc_displayCrossStreet = None, loc_direction = None,
      loc_linearReference = None\<rparr>"

definition or_empty :: "api_location option \<Rightarrow> api_location" where
  "or_empty loc = (case loc of None \<Rightarrow> empty_location | Some l \<Rightarrow> l)"

definition through_lane_names :: "int \<Rightarrow> string" where
  "through_lane_names placement =
     (if placement = 0 then ''Through Lane''
      else if placement = 1 then ''Inside Lane''
      else if placement = 2 then ''Center Lane''
      else if placement = 3 then ''Outside Lane''
      else ''Through Lane'')"

definition closed_lane_name :: "api_lane \<Rightarrow> string" where
  "closed_lane_name lane =
     (if lane_type lane = ''ThroughLane'' then through_lane_names (lane_placement lane)
      else if lane_type lane = ''RightShoulder'' then ''Right Shoulder''
      else if lane_type lane = ''LeftShoulder'' then ''Left Shoulder''
      else if lane_type lane = ''TurnLane'' then ''Turn Lane''
      else lane_type lane)"

definition process_lane_info :: "api_lane_direction list \<Rightarrow> string" where
  "process_lane_info lane_info =
     (if lane_info = [] then []
      else join_comma
        (concat
          (map (\<lambda>direction_info.
                 map (\<lambda>lane. lanes_direction direction_info @ '' '' @ closed_lane_name lane)
                   (filter (\<lambda>lane. lane_state lane = Some ''Closed'') (lanes direction_info)))
             lane_info)))"

text \<open>
  \<^verbatim>\<open>parse_datetime\<close>: \<open>fromisoformat\<close> stands for the standard library's
  \<^verbatim>\<open>datetime.fromisoformat\<close> followed by the formatting to whole seconds; it answers
  None where the library raises ValueError.
\<close>

definition parse_datetime :: "(string \<Rightarrow> int option) \<Rightarrow> string option \<Rightarrow> int option" where
  "parse_datetime fromisoformat dt_string =
     (case dt_string of
        None \<Rightarrow> None
      | Some s \<Rightarrow> if s = [] then None else fromisoformat (str_replace ''Z'' ''+00:00'' s))"

text \<open>Python's truthiness of a number or None: \<^verbatim>\<open>not lat\<close> holds for None and for zero.\<close>

definition falsy :: "real option \<Rightarrow> bool" where
  "falsy v = (case v of None \<Rightarrow> True | Some x \<Rightarrow> x = 0)"

text \<open>One pass of the loop body of \<^verbatim>\<open>get_api_response\<close>; None is \<^verbatim>\<open>continue\<close>.\<close>

definition event_dict :: "(string \<Rightarrow> int option) \<Rightarrow> api_event \<Rightarrow> event option" where
  "event_dict fromisoformat ev =
     (let start_loc = or_empty (ev_startLocation ev);
          end_loc = or_empty (ev_endLocation ev);
          lat = loc_latitude start_loc;
          lon = loc_longitude start_loc
      in if falsy lat \<or> falsy lon then None
         else
           let severity0 = (case ev_severity ev of None \<Rightarrow> [] | Some s \<Rightarrow> s);
               severity1 = str_strip (str_replace ''Delay'' [] severity0)
           in Some
             \<lparr>event_id = ev_id ev,
              category = ev_type ev,
              title = ev_title ev,
              location = ev_shortSubTitle ev,
              full_location = ev_subTitle ev,
              description = ev_description ev,
              region = ev_responsibleRegion ev,
              severity = Some severity1,
              county = loc_county start_loc,
              city = loc_city start_loc,
              road = loc_routeDesignator start_loc,
              road_display = loc_displayRouteDesignator start_loc,
              road_type = loc_routeDesignatorType start_loc,
              cross_street = loc_displayCrossStreet start_loc,
              direction = loc_direction start_loc,
              mile_marker = loc_linearReference start_loc,
              start_time = parse_datetime fromisoformat (ev_start ev),
              end_time = parse_datetime fromisoformat (ev_end ev),
              last_updated = parse_datetime fromisoformat (ev_lastUpdatedAt ev),
              active = Some (if ev_active ev = Some True then 1 else 0),
              start_latitude = lat,
              start_longitude = lon,
              end_latitude = loc_latitude end_loc,
              end_longitude = loc_longitude end_loc,
              lane_closures = Some (process_lane_info (ev_laneDirections ev))\<rparr>)"

text \<open>
  The HTTP request either fails (\<^verbatim>\<open>requests.RequestException\<close>), or its body is not
  JSON (\<^verbatim>\<open>ValueError\<close>), or it decodes to a list of events. Both failures are caught
  and give the empty list.
\<close>

datatype api_response = RequestException | ValueError | Json "api_event list"

definition get_api_response :: "(string \<Rightarrow> int option) \<Rightarrow> api_response \<Rightarrow> event list" where
  "get_api_response fromisoformat response =
     (case response of
        Json data \<Rightarrow> List.map_filter (event_dict fromisoformat) data
      | _ \<Rightarrow> [])"

text \<open>An upstream event at a given start coordinate pair, used to write concrete inputs.\<close>

definition api_event_at :: "int \<Rightarrow> real \<Rightarrow> real \<Rightarrow> api_event" where
  "api_event_at i lat lon =
     \<lparr>ev_id = i, ev_type = Some ''Crash'', ev_title = None, ev_shortSubTitle = None,
      ev_subTitle = None, ev_description = None, ev_responsibleRegion = None,
      ev_severity = Some ''Major'',
      ev_startLocation = Some (empty_location\<lparr>loc_latitude := Some lat, loc_longitude := Some lon\<rparr>),
      ev_endLocation = None, ev_start = None, ev_end = None, ev_lastUpdatedAt = None,
      ev_active = Some True, ev_laneDirections = []\<rparr>"

section \<open>Specification-side definitions and concrete rows\<close>

text \<open>
  The durations that survive the bounds, in the words of the specification: for each
  incident with both timestamps, end minus start in minutes, kept when strictly
  greater than 1 and strictly less than 1440.
\<close>

definition surviving_durations :: "event list \<Rightarrow> real list" where
  "surviving_durations rows =
     concat (map (\<lambda>row. case (start_time row, end_time row) of
                     (Some s, Some e) \<Rightarrow>
                       (let minutes = real_of_int (e - s) / 60
                        in if 1 < minutes \<and> minutes < 1440 then [minutes] else [])
                   | _ \<Rightarrow> []) rows)"

text \<open>Concrete rows: an incident with given timestamps, and one with given road, county and mile marker.\<close>

definition timed_event :: "int \<Rightarrow> int option \<Rightarrow> int option \<Rightarrow> event" where
  "timed_event i s e = (blank_event i)\<lparr>start_time := s, end_time := e\<rparr>"

definition located_event :: "int \<Rightarrow> string \<Rightarrow> string \<Rightarrow> real option \<Rightarrow> event" where
  "located_event i r c mm = (blank_event i)\<lparr>road := Some r, county := Some c, mile_marker := mm\<rparr>"

text \<open>Concrete rows of the store, a database with four rows and a pair of filters.\<close>

definition store_event ::
  "int \<Rightarrow> string \<Rightarrow> string \<Rightarrow> string \<Rightarrow> int option \<Rightarrow> real option \<Rightarrow> real option \<Rightarrow> event" where
  "store_event i cat sev cnty t lat lon =
     (blank_event i)\<lparr>category := Some cat, severity := Some sev, county := Some cnty,
        start_time := t, active := Some 1, start_latitude := lat, start_longitude := lon\<rparr>"

definition empty_database :: database where
  "empty_database = \<lparr>table_rows = [], connections_opened = 0\<rparr>"

definition example_filters :: query_filters where
  "example_filters = no_filters\<lparr>counties := Some [''A''], severities := Some [''Major'']\<rparr>"

definition example_database :: database where
  "example_database =
     \<lparr>table_rows =
        [store_event 1 ''Crash'' ''Major'' ''A'' (Some 864005) (Some 32) (Some (- 86)),
         store_event 2 ''Crash'' ''Minor'' ''A'' (Some 864006) (Some 32) (Some (- 86)),
         store_event 3 ''Crash'' ''Major'' ''B'' (Some 864007) (Some 32) (Some (- 86)),
         store_event 4 ''Crash'' ''Major'' ''A'' (Some 864008) None (Some (- 86))],
      connections_opened = 0\<rparr>"

text \<open>
  A record for the round trip, the same record without a start time, and a database
  that already holds a row with the identity 7 and another severity.
\<close>

definition example_record :: event where
  "example_record = store_event 7 ''Crash'' ''Major'' ''A'' (Some 864009) (Some 33) (Some (- 87))"

definition record_without_start_time :: event where
  "record_without_start_time = store_event 7 ''Crash'' ''Major'' ''A'' None (Some 33) (Some (- 87))"

definition stale_database :: database where
  "stale_database =
     \<lparr>table_rows =
        [store_event 7 ''Crash'' ''Minor'' ''A'' (Some 864009) (Some 33) (Some (- 87)),
         store_event 8 ''Crash'' ''Major'' ''B'' (Some 864010) (Some 32) (Some (- 86))],
      connections_opened = 0\<rparr>"

text \<open>
  Crashes for the clustering: three at (0, 0), two at the antipode (0, 180), and one
  row without coordinates.
\<close>

definition crash_at :: "int \<Rightarrow> real \<Rightarrow> real \<Rightarrow> event" where
  "crash_at i lat lon = (blank_event i)\<lparr>start_latitude := Some lat, start_longitude := Some lon\<rparr>"

definition example_crashes :: "event list" where
  "example_crashes =
     [crash_at 1 0 0, crash_at 2 0 180, blank_event 9, crash_at 3 0 0, crash_at 4 0 0,
      crash_at 5 0 180]"

section \<open>Verified properties\<close>

subsection \<open>Danger score\<close>

lemma series_eq_sum_count: "series_eq_sum xs s = int (count_list xs (Some s))"
  by (induction xs) (auto simp: series_eq_sum_def)

lemma danger_score_unfold:
  "calculate_danger_score xs =
     3 * int (count_list xs (Some ''Major''))
     + 2 * int (count_list xs (Some ''Moderate''))
     + int (count_list xs (Some ''Minor''))"
  by (simp add: calculate_danger_score_def SEVERITY_WEIGHTS_def series_eq_sum_count)

text \<open>
  C4. For every series of severity values the danger score is three times the number
  of Major cells plus twice the number of Moderate cells plus the number of Minor
  cells; the score of the empty series is 0; a cell that is none of the three (another
  severity, or missing) contributes nothing wherever it stands; and a series with at
  least as many cells of each of the three severities has at least the same score.
\<close>

theorem danger_score_weighted_sum:
  "calculate_danger_score xs =
       3 * int (count_list xs (Some ''Major''))
     + 2 * int (count_list xs (Some ''Moderate''))
     + 1 * int (count_list xs (Some ''Minor''))
   \<and> calculate_danger_score [] = 0
   \<and> (cell \<noteq> Some ''Major'' \<and> cell \<noteq> Some ''Moderate'' \<and> cell \<noteq> Some ''Minor''
        \<longrightarrow> calculate_danger_score (xs @ cell # zs) = calculate_danger_score (xs @ zs))
   \<and> (count_list xs (Some ''Major'') \<le> count_list ys (Some ''Major'')
        \<and> count_list xs (Some ''Moderate'') \<le> count_list ys (Some ''Moderate'')
        \<and> count_list xs (Some ''Minor'') \<le> count_list ys (Some ''Minor'')
        \<longrightarrow> calculate_danger_score xs \<le> calculate_danger_score ys)"
  by (simp add: danger_score_unfold)

theorem danger_score_weighted_sum_witness:
  "calculate_danger_score [Some ''Major'', Some ''Minor'', None, Some ''Moderate'', Some ''Major''] = 9
   \<and> calculate_danger_score ([Some ''Major'', Some ''Minor'', None, Some ''Moderate'', Some ''Major'']
         @ Some ''Closed'' # [Some ''Minor''])
       = calculate_danger_score ([Some ''Major'', Some ''Minor'', None, Some ''Moderate'', Some ''Major'']
         @ [Some ''Minor''])
   \<and> calculate_danger_score [Some ''Major'', Some ''Minor'', None, Some ''Moderate'', Some ''Major'']
       \<le> calculate_danger_score
            [Some ''Major'', Some ''Major'', Some ''Moderate'', Some ''Minor'', Some ''Major'']"
  using danger_score_weighted_sum
          [of "[Some ''Major'', Some ''Minor'', None, Some ''Moderate'', Some ''Major'']"
              "Some ''Closed''" "[Some ''Minor'']"
              "[Some ''Major'', Some ''Major'', Some ''Moderate'', Some ''Minor'', Some ''Major'']"]
  by simp

subsection \<open>Great-circle distance\<close>

lemma sin_half_diff_sq: "(sin ((b - a) / 2))\<^sup>2 = (sin ((a - b) / 2 :: real))\<^sup>2"
proof -
  have "(b - a) / 2 = - ((a - b) / 2)" by argo
  then have "sin ((b - a) / 2) = - sin ((a - b) / 2)" by (metis sin_minus)
  then show ?thesis by simp
qed

lemma haversine_a_sym: "haversine_a lat1 lon1 lat2 lon2 = haversine_a lat2 lon2 lat1 lon1"
  by (simp add: haversine_a_def Let_def
        sin_half_diff_sq [of "radians lat1" "radians lat2"]
        sin_half_diff_sq [of "radians lon1" "radians lon2"] mult.commute)

lemma haversine_a_same: "haversine_a lat lon lat lon = 0"
  by (simp add: haversine_a_def)

lemma central_angle_0: "central_angle 0 = Some 0"
  by (simp add: central_angle_def np_sqrt_def np_arcsin_def)

text \<open>
  C8. For all coordinates the great-circle distance from a to b equals the distance
  from b to a, and the distance from a point to itself is 0, for the distance in miles
  of calculations.py and for the distance in meters of analysis.py.
\<close>

theorem haversine_symmetric_zero:
  "haversine_distance lat1 lon1 lat2 lon2 = haversine_distance lat2 lon2 lat1 lon1
   \<and> haversine_distance lat lon lat lon = Some 0
   \<and> haversine lon1 lat1 lon2 lat2 = haversine lon2 lat2 lon1 lat1
   \<and> haversine lon lat lon lat = Some 0"
  by (simp add: haversine_distance_def haversine_def haversine_a_same central_angle_0
        haversine_a_sym [of lat1 lon1 lat2 lon2])

text \<open>
  In exact arithmetic the intermediate \<open>a\<close> of both functions lies in [0, 1] for all
  latitudes and longitudes.
\<close>

lemma mix_bounds:
  fixes C S h :: real
  assumes "- 1 \<le> C" "C \<le> 1" "- 1 \<le> S" "S \<le> 1" "0 \<le> h" "h \<le> 1"
  shows "0 \<le> (1 - C) / 2 + (C + S) / 2 * h" and "(1 - C) / 2 + (C + S) / 2 * h \<le> 1"
proof -
  have e: "(1 - C) / 2 + (C + S) / 2 * h = (1 - C * (1 - h) + S * h) / 2"
    by (simp add: field_simps)
  have c1: "C * (1 - h) \<le> 1 * (1 - h)" using assms by (intro mult_right_mono) auto
  have c2: "(- 1) * (1 - h) \<le> C * (1 - h)" using assms by (intro mult_right_mono) auto
  have s1: "S * h \<le> 1 * h" using assms by (intro mult_right_mono) auto
  have s2: "(- 1) * h \<le> S * h" using assms by (intro mult_right_mono) auto
  show "0 \<le> (1 - C) / 2 + (C + S) / 2 * h" unfolding e using c1 s2 by simp
  show "(1 - C) / 2 + (C + S) / 2 * h \<le> 1" unfolding e using c2 s1 by simp
qed

lemma sin_half_sq: "(sin (x / 2))\<^sup>2 = (1 - cos (x::real)) / 2"
  using cos_double_sin [of "x / 2"] by simp

lemma cos_prod: "cos p * cos q = (cos (q - p) + cos (p + q :: real)) / 2"
  by (simp add: cos_add cos_diff)

lemma haversine_a_range: "0 \<le> haversine_a lat1 lon1 lat2 lon2 \<and> haversine_a lat1 lon1 lat2 lon2 \<le> 1"
proof -
  define p where "p = radians lat1"
  define q where "q = radians lat2"
  define h where "h = (sin ((radians lon2 - radians lon1) / 2))\<^sup>2"
  have a: "haversine_a lat1 lon1 lat2 lon2 = (1 - cos (q - p)) / 2 + (cos (q - p) + cos (p + q)) / 2 * h"
    by (simp add: haversine_a_def Let_def p_def q_def h_def sin_half_sq cos_prod)
  have h0: "0 \<le> h" by (simp add: h_def)
  have h1: "h \<le> 1"
    unfolding h_def
    using sin_cos_squared_add [of "(radians lon2 - radians lon1) / 2"]
          zero_le_power2 [of "cos ((radians lon2 - radians lon1) / 2)"]
    by linarith
  show ?thesis
    unfolding a using mix_bounds [of "cos (q - p)" "cos (p + q)" h] h0 h1 by simp
qed

subsection \<open>Clearance time\<close>

lemma surviving_durations_code:
  "filter (\<lambda>d. d > MIN_CLEARANCE_MINUTES \<and> d < MAX_CLEARANCE_MINUTES)
     (clearance_durations (dropna_times rows)) = surviving_durations rows"
  by (induction rows)
     (auto simp: surviving_durations_def clearance_durations_def dropna_times_def
        List.map_filter_simps MIN_CLEARANCE_MINUTES_def MAX_CLEARANCE_MINUTES_def Let_def
        split: option.splits)

lemma avg_clearance_unfold:
  "calculate_avg_clearance_minutes (Some rows) =
     (if surviving_durations rows = [] then None
      else Some (sum_list (surviving_durations rows) / real (length (surviving_durations rows))))"
proof -
  have "dropna_times rows = [] \<Longrightarrow> surviving_durations rows = []"
    using surviving_durations_code [of rows] by (simp add: clearance_durations_def)
  moreover have "surviving_durations [] = []" by (simp add: surviving_durations_def)
  ultimately show ?thesis
    by (auto simp: calculate_avg_clearance_minutes_def Let_def surviving_durations_code mean_def)
qed

lemma surviving_Nil_iff:
  "surviving_durations rows = [] \<longleftrightarrow>
     (\<forall>row \<in> set rows. \<forall>s e. start_time row = Some s \<and> end_time row = Some e
        \<longrightarrow> real_of_int (e - s) / 60 \<le> 1 \<or> 1440 \<le> real_of_int (e - s) / 60)"
  by (induction rows) (auto simp: surviving_durations_def Let_def split: option.splits)

lemma mean_bounds:
  fixes xs :: "real list"
  assumes "xs \<noteq> []" "\<forall>x \<in> set xs. lo < x \<and> x < hi"
  shows "lo < sum_list xs / real (length xs) \<and> sum_list xs / real (length xs) < hi"
proof -
  have n: "0 < real (length xs)" using assms by simp
  have "real (length xs) * lo < sum_list xs \<and> sum_list xs < real (length xs) * hi"
    using assms
  proof (induction xs rule: list_nonempty_induct)
    case (single x)
    then show ?case by simp
  next
    case (cons x xs)
    then show ?case by (simp add: algebra_simps)
  qed
  then show ?thesis using n by (simp add: pos_less_divide_eq pos_divide_less_eq mult.commute)
qed

lemma surviving_in_bounds: "\<forall>d \<in> set (surviving_durations rows). 1 < d \<and> d < 1440"
  by (induction rows) (auto simp: surviving_durations_def Let_def split: option.splits)

text \<open>
  C3. For every collection of incidents the result is the arithmetic mean of the
  durations (end minus start, in minutes) that are strictly between 1 and 1440; it is
  None exactly when the collection is empty, or no row has both timestamps, or every
  computed duration is outside the bounds; it is never the number 0 (a returned mean
  is itself strictly between 1 and 1440). Durations 5, 10 and 1500 give 7.5.
\<close>

theorem avg_clearance_minutes_mean:
  "calculate_avg_clearance_minutes (Some rows) =
     (if surviving_durations rows = [] then None
      else Some (sum_list (surviving_durations rows) / real (length (surviving_durations rows))))
   \<and> (calculate_avg_clearance_minutes (Some rows) = None \<longleftrightarrow>
        rows = []
        \<or> (\<forall>row \<in> set rows. start_time row = None \<or> end_time row = None)
        \<or> (\<forall>row \<in> set rows. \<forall>s e. start_time row = Some s \<and> end_time row = Some e
              \<longrightarrow> real_of_int (e - s) / 60 \<le> 1 \<or> 1440 \<le> real_of_int (e - s) / 60))
   \<and> calculate_avg_clearance_minutes (Some rows) \<noteq> Some 0
   \<and> (\<forall>m. calculate_avg_clearance_minutes (Some rows) = Some m \<longrightarrow> 1 < m \<and> m < 1440)"
proof -
  let ?v = "surviving_durations rows"
  have u: "calculate_avg_clearance_minutes (Some rows) =
     (if ?v = [] then None else Some (sum_list ?v / real (length ?v)))"
    by (rule avg_clearance_unfold)
  have none: "calculate_avg_clearance_minutes (Some rows) = None \<longleftrightarrow> ?v = []"
    by (simp add: u)
  have third: "?v = [] \<longleftrightarrow>
     (\<forall>row \<in> set rows. \<forall>s e. start_time row = Some s \<and> end_time row = Some e
        \<longrightarrow> real_of_int (e - s) / 60 \<le> 1 \<or> 1440 \<le> real_of_int (e - s) / 60)"
    by (rule surviving_Nil_iff)
  have first: "rows = [] \<Longrightarrow> ?v = []" by (simp add: surviving_durations_def)
  have second: "(\<forall>row \<in> set rows. start_time row = None \<or> end_time row = None) \<Longrightarrow> ?v = []"
    unfolding third by auto
  have bounds: "\<And>m. calculate_avg_clearance_minutes (Some rows) = Some m \<Longrightarrow> 1 < m \<and> m < 1440"
  proof -
    fix m assume "calculate_avg_clearance_minutes (Some rows) = Some m"
    then have ne: "?v \<noteq> []" and m: "m = sum_list ?v / real (length ?v)"
      by (auto simp: u split: if_splits)
    show "1 < m \<and> m < 1440"
      unfolding m using mean_bounds [OF ne surviving_in_bounds] .
  qed
  have nz: "calculate_avg_clearance_minutes (Some rows) \<noteq> Some 0"
    using bounds [of 0] by auto
  show ?thesis
  proof (intro conjI)
    show "calculate_avg_clearance_minutes (Some rows) =
      (if ?v = [] then None else Some (sum_list ?v / real (length ?v)))"
      by (rule u)
    show "calculate_avg_clearance_minutes (Some rows) = None \<longleftrightarrow>
        rows = []
        \<or> (\<forall>row \<in> set rows. start_time row = None \<or> end_time row = None)
        \<or> (\<forall>row \<in> set rows. \<forall>s e. start_time row = Some s \<and> end_time row = Some e
              \<longrightarrow> real_of_int (e - s) / 60 \<le> 1 \<or> 1440 \<le> real_of_int (e - s) / 60)"
      unfolding none using third first second by blast
    show "calculate_avg_clearance_minutes (Some rows) \<noteq> Some 0" by (rule nz)
    show "\<forall>m. calculate_avg_clearance_minutes (Some rows) = Some m \<longrightarrow> 1 < m \<and> m < 1440"
      using bounds by blast
  qed
qed

theorem avg_clearance_minutes_mean_witness:
  "calculate_avg_clearance_minutes
     (Some [timed_event 1 (Some 0) (Some 300), timed_event 2 (Some 60) (Some 660),
            timed_event 3 (Some 0) (Some 90000), timed_event 4 (Some 0) None]) = Some (15 / 2)
   \<and> (1::real) < 15 / 2 \<and> (15::real) / 2 < 1440
   \<and> calculate_avg_clearance_minutes (Some [timed_event 4 (Some 0) None]) = None
   \<and> calculate_avg_clearance_minutes (Some [timed_event 3 (Some 0) (Some 90000)]) = None"
  using avg_clearance_minutes_mean
          [of "[timed_event 1 (Some 0) (Some 300), timed_event 2 (Some 60) (Some 660),
                timed_event 3 (Some 0) (Some 90000), timed_event 4 (Some 0) None]"]
        avg_clearance_minutes_mean [of "[timed_event 4 (Some 0) None]"]
        avg_clearance_minutes_mean [of "[timed_event 3 (Some 0) (Some 90000)]"]
  by (simp add: surviving_durations_def timed_event_def blank_event_def)

subsection \<open>Work-zone correlation\<close>

text \<open>
  C1, at the input of the specification's own example: a crash on US-80 in Dallas at
  mile marker 10 and one roadwork on the same road and county at mile marker 20. The
  documented rule does not count the crash; the function returns 1.
\<close>

theorem construction_zone_counts_far_crash:
  "calculate_construction_zone_crashes
     [located_event 1 ''US-80'' ''Dallas'' (Some 10)]
     [located_event 2 ''US-80'' ''Dallas'' (Some 20)] = 1
   \<and> \<not> documented_in_work_zone [located_event 2 ''US-80'' ''Dallas'' (Some 20)]
         (located_event 1 ''US-80'' ''Dallas'' (Some 10))"
  by (simp add: calculate_construction_zone_crashes_def count_crash_def
        documented_in_work_zone_def located_event_def blank_event_def)

text \<open>
  On the other examples of the specification the function and the documented rule
  agree: an anchor at marker 11 counts the crash, so does an anchor without a marker,
  and roadwork in another county does not.
\<close>

lemma construction_zone_agreeing_examples:
  "calculate_construction_zone_crashes
     [located_event 1 ''US-80'' ''Dallas'' (Some 10)]
     [located_event 2 ''US-80'' ''Dallas'' (Some 11)] = 1"
  "calculate_construction_zone_crashes
     [located_event 1 ''US-80'' ''Dallas'' (Some 10)]
     [located_event 2 ''US-80'' ''Dallas'' None] = 1"
  "calculate_construction_zone_crashes
     [located_event 1 ''US-80'' ''Dallas'' None]
     [located_event 2 ''US-80'' ''Dallas'' (Some 20)] = 1"
  "calculate_construction_zone_crashes
     [located_event 1 ''US-80'' ''Dallas'' (Some 10)]
     [located_event 2 ''US-80'' ''Perry'' (Some 10)] = 0"
  "documented_in_work_zone [located_event 2 ''US-80'' ''Dallas'' (Some 11)]
     (located_event 1 ''US-80'' ''Dallas'' (Some 10))"
  "documented_in_work_zone [located_event 2 ''US-80'' ''Dallas'' None]
     (located_event 1 ''US-80'' ''Dallas'' (Some 10))"
  by (simp_all add: calculate_construction_zone_crashes_def count_crash_def
        documented_in_work_zone_def located_event_def blank_event_def)

text \<open>
  What the source computes: whichever way the anchor loop ends, the crash is counted
  once, so every crash whose (road, county) key has roadwork is counted.
\<close>

lemma scan_anchors_counts:
  "(case scan_anchors crash_mm anchors n of (counted, True) \<Rightarrow> counted | (counted, False) \<Rightarrow> Suc counted)
   = Suc n"
  by (induction anchors) (auto split: option.splits)

lemma count_crash_every_keyed:
  "count_crash idx crash n =
     n + (case (road crash, county crash) of
            (Some r, Some c) \<Rightarrow> if idx (r, c) = None then 0 else 1
          | _ \<Rightarrow> 0)"
  by (auto simp: count_crash_def scan_anchors_counts split: option.splits)

lemma build_roadwork_index_None:
  "build_roadwork_index roadwork idx (r, c) = None \<longleftrightarrow>
     idx (r, c) = None \<and> \<not> (\<exists>rw \<in> set roadwork. road rw = Some r \<and> county rw = Some c)"
proof (induction roadwork arbitrary: idx)
  case Nil
  then show ?case by simp
next
  case (Cons rw rest)
  show ?case
  proof (cases "road rw")
    case None
    then show ?thesis using Cons.IH [of idx] by simp
  next
    case r': (Some r')
    show ?thesis
    proof (cases "county rw")
      case None
      then show ?thesis using r' Cons.IH [of idx] by simp
    next
      case c': (Some c')
      define idx' where
        "idx' = idx((r', c') \<mapsto>
                  (case idx (r', c') of None \<Rightarrow> [] | Some anchors \<Rightarrow> anchors) @ [mile_marker rw])"
      have step: "build_roadwork_index (rw # rest) idx = build_roadwork_index rest idx'"
        using r' c' by (simp add: idx'_def)
      have upd: "idx' (r, c) = None \<longleftrightarrow> idx (r, c) = None \<and> (r, c) \<noteq> (r', c')"
        by (simp add: idx'_def)
      show ?thesis
        unfolding step Cons.IH [of idx'] upd using r' c' by auto
    qed
  qed
qed

lemma fold_count_crash:
  "fold (count_crash idx) crashes n =
     n + length (filter (\<lambda>crash. case (road crash, county crash) of
                           (Some r, Some c) \<Rightarrow> idx (r, c) \<noteq> None
                         | _ \<Rightarrow> False) crashes)"
  by (induction crashes arbitrary: n) (auto simp: count_crash_every_keyed split: option.splits)

lemma construction_zone_counts_same_road_and_county:
  "calculate_construction_zone_crashes crashes roadwork =
     length (filter (\<lambda>crash. \<exists>rw \<in> set roadwork. \<exists>r c.
                road crash = Some r \<and> county crash = Some c
                \<and> road rw = Some r \<and> county rw = Some c) crashes)"
proof -
  have k: "\<And>crash. (case (road crash, county crash) of
                   (Some r, Some c) \<Rightarrow> build_roadwork_index roadwork Map.empty (r, c) \<noteq> None
                 | _ \<Rightarrow> False)
         = (\<exists>rw \<in> set roadwork. \<exists>r c. road crash = Some r \<and> county crash = Some c
                \<and> road rw = Some r \<and> county rw = Some c)"
    by (auto simp: build_roadwork_index_None split: option.splits)
  show ?thesis
  proof (cases "roadwork = [] \<or> crashes = []")
    case True
    then show ?thesis by (auto simp: calculate_construction_zone_crashes_def)
  next
    case False
    then have "calculate_construction_zone_crashes crashes roadwork =
        length (filter (\<lambda>crash. case (road crash, county crash) of
                   (Some r, Some c) \<Rightarrow> build_roadwork_index roadwork Map.empty (r, c) \<noteq> None
                 | _ \<Rightarrow> False) crashes)"
      by (simp add: calculate_construction_zone_crashes_def fold_count_crash)
    then show ?thesis by (simp only: k)
  qed
qed

subsection \<open>Ingestion\<close>

lemma event_dict_None_iff:
  "event_dict fromiso ev = None \<longleftrightarrow>
     (case ev_startLocation ev of
        None \<Rightarrow> True
      | Some loc \<Rightarrow> loc_latitude loc = None \<or> loc_latitude loc = Some 0
                  \<or> loc_longitude loc = None \<or> loc_longitude loc = Some 0)"
  by (auto simp: event_dict_def Let_def falsy_def or_empty_def empty_location_def
        split: option.splits)

lemma event_dict_Some:
  "event_dict fromiso ev = Some row \<Longrightarrow>
     event_id row = ev_id ev
     \<and> start_latitude row = loc_latitude (or_empty (ev_startLocation ev))
     \<and> start_longitude row = loc_longitude (or_empty (ev_startLocation ev))
     \<and> start_latitude row \<noteq> None \<and> start_latitude row \<noteq> Some 0
     \<and> start_longitude row \<noteq> None \<and> start_longitude row \<noteq> Some 0"
  by (auto simp: event_dict_def Let_def falsy_def split: option.splits if_splits)

lemma set_map_filter: "set (List.map_filter f xs) = {y. \<exists>x \<in> set xs. f x = Some y}"
  by (induction xs) (auto simp: List.map_filter_simps split: option.splits)

text \<open>
  C10. An upstream record is dropped exactly when it has no start location, or its
  start latitude or start longitude is missing, null or exactly zero. So every row
  that ingestion returns has both coordinates present and different from zero, and a
  record at (0, 0), on the equator or on the prime meridian is dropped although it
  carries a start coordinate pair: the response without it gives the same rows.
\<close>

theorem ingestion_drops_zero_coordinates:
  "(event_dict fromiso ev = None \<longleftrightarrow>
     (case ev_startLocation ev of
        None \<Rightarrow> True
      | Some loc \<Rightarrow> loc_latitude loc = None \<or> loc_latitude loc = Some 0
                  \<or> loc_longitude loc = None \<or> loc_longitude loc = Some 0))
   \<and> (\<forall>row \<in> set (get_api_response fromiso (Json data)).
         start_latitude row \<noteq> None \<and> start_latitude row \<noteq> Some 0
         \<and> start_longitude row \<noteq> None \<and> start_longitude row \<noteq> Some 0)
   \<and> get_api_response fromiso (Json (before @ [api_event_at i 0 0] @ after))
       = get_api_response fromiso (Json (before @ after))
   \<and> get_api_response fromiso (Json (before @ [api_event_at i 0 lon] @ after))
       = get_api_response fromiso (Json (before @ after))
   \<and> get_api_response fromiso (Json (before @ [api_event_at i lat 0] @ after))
       = get_api_response fromiso (Json (before @ after))"
proof -
  have z: "\<And>la lo. la = 0 \<or> lo = 0 \<Longrightarrow> event_dict fromiso (api_event_at i la lo) = None"
    by (auto simp: event_dict_None_iff api_event_at_def)
  have drop: "\<And>e. event_dict fromiso e = None \<Longrightarrow>
      List.map_filter (event_dict fromiso) (before @ [e] @ after)
      = List.map_filter (event_dict fromiso) (before @ after)"
    by (simp add: List.map_filter_def)
  show ?thesis
    using event_dict_None_iff [of fromiso ev] z drop
    by (auto simp: get_api_response_def set_map_filter dest: event_dict_Some)
qed

theorem ingestion_drops_zero_coordinates_witness:
  "map event_id
     (get_api_response (\<lambda>s. None)
        (Json ([api_event_at 1 32 (- 86)] @ [api_event_at 2 0 0] @ [api_event_at 3 33 (- 87)]))) = [1, 3]
   \<and> get_api_response (\<lambda>s. None)
        (Json ([] @ [api_event_at 4 0 (- 86)] @ [])) = []
   \<and> get_api_response (\<lambda>s. None)
        (Json ([] @ [api_event_at 5 32 0] @ [])) = []
   \<and> event_dict (\<lambda>s. None) (api_event_at 2 0 0) = None"
  using ingestion_drops_zero_coordinates
          [of "\<lambda>s. None" "api_event_at 2 0 0"
              "[api_event_at 1 32 (- 86), api_event_at 3 33 (- 87)]"
              "[api_event_at 1 32 (- 86)]" 2 "[api_event_at 3 33 (- 87)]" "- 86" 32]
        ingestion_drops_zero_coordinates
          [of "\<lambda>s. None" "api_event_at 2 0 0" "[]" "[]" 4 "[]" "- 86" 32]
        ingestion_drops_zero_coordinates
          [of "\<lambda>s. None" "api_event_at 2 0 0" "[]" "[]" 5 "[]" "- 86" 32]
  by (simp add: get_api_response_def List.map_filter_simps event_dict_def api_event_at_def
        or_empty_def empty_location_def falsy_def Let_def)

subsection \<open>upsert_events with no records\<close>

text \<open>
  C9. Upserting the empty list returns 0 and leaves the database as it was: the rows
  are unchanged and no connection is opened.
\<close>

theorem upsert_events_empty:
  "upsert_events [] db = (Inr 0, db)
   \<and> table_rows (snd (upsert_events [] db)) = table_rows db
   \<and> connections_opened (snd (upsert_events [] db)) = connections_opened db"
  by (simp add: upsert_events_def)

subsection \<open>query_events\<close>

lemma foldl_sql_and_True:
  "foldl sql_and acc vs = Some True \<longleftrightarrow> acc = Some True \<and> list_all (\<lambda>v. v = Some True) vs"
proof (induction vs arbitrary: acc)
  case Nil
  then show ?case by simp
next
  case (Cons v vs)
  have "sql_and acc v = Some True \<longleftrightarrow> acc = Some True \<and> v = Some True"
    by (cases "(acc, v)" rule: sql_and.cases) auto
  then show ?case by (auto simp: Cons.IH)
qed

lemma where_clause_True:
  "where_clause conditions row = Some True \<longleftrightarrow> list_all (\<lambda>c. c row = Some True) conditions"
  by (simp add: where_clause_def foldl_sql_and_True list_all_iff)

lemma list_filter_condition_True:
  "list_all (\<lambda>c. c row = Some True) (list_filter_condition col vals)
     \<longleftrightarrow> unrestricted vals \<or> member_of (col row) vals"
  by (auto simp: list_filter_condition_def unrestricted_def member_of_def column_in_def
        split: option.splits)

lemma query_conditions_True:
  "list_all (\<lambda>c. c row = Some True) (query_conditions f)
     \<longleftrightarrow> has_start_coordinates row \<and> satisfies_filters f row"
  by (auto simp: query_conditions_def list_filter_condition_True has_start_coordinates_def
        satisfies_filters_def is_not_null_def date_start_time_ge_def date_start_time_le_def
        on_or_after_def on_or_before_def sql_date_def active_eq_1_def
        split: option.splits)

lemma selected_iff:
  "where_clause (query_conditions f) row = Some True
     \<longleftrightarrow> has_start_coordinates row \<and> satisfies_filters f row"
  by (simp add: where_clause_True query_conditions_True)

lemma query_events_rows:
  "mset (fst (query_events f db)) =
     filter_mset (\<lambda>row. has_start_coordinates row \<and> satisfies_filters f row) (mset (table_rows db))"
  by (simp add: query_events_def Let_def order_by_start_time_desc_def get_connection_def selected_iff)

lemma query_events_unrestricted:
  assumes "\<And>row. satisfies_filters f row = satisfies_filters g row"
  shows "fst (query_events f db) = fst (query_events g db)"
  using assms by (simp add: query_events_def Let_def selected_iff)

text \<open>
  C5. For every combination of filters and every table, the rows that
  \<^verbatim>\<open>query_events\<close> returns are exactly the stored rows (with multiplicity) that have
  both start coordinates and satisfy the conjunction of the supplied filters: day-wise
  inclusive date bounds on the start time, membership for county, category and
  severity, and the active flag. An empty list or a list containing \<^verbatim>\<open>"All"\<close> gives
  the same result as omitting that filter, and no returned row lacks a start
  coordinate.
\<close>

theorem query_events_filter_composition:
  "mset (fst (query_events f db)) =
     filter_mset (\<lambda>row. has_start_coordinates row \<and> satisfies_filters f row) (mset (table_rows db))
   \<and> (\<forall>row \<in> set (fst (query_events f db)).
         start_latitude row \<noteq> None \<and> start_longitude row \<noteq> None \<and> satisfies_filters f row)
   \<and> (vs = [] \<or> ''All'' \<in> set vs \<longrightarrow>
         fst (query_events (f\<lparr>counties := Some vs\<rparr>) db) = fst (query_events (f\<lparr>counties := None\<rparr>) db)
       \<and> fst (query_events (f\<lparr>categories := Some vs\<rparr>) db) = fst (query_events (f\<lparr>categories := None\<rparr>) db)
       \<and> fst (query_events (f\<lparr>severities := Some vs\<rparr>) db) = fst (query_events (f\<lparr>severities := None\<rparr>) db))"
proof (intro conjI impI)
  show "mset (fst (query_events f db)) =
     filter_mset (\<lambda>row. has_start_coordinates row \<and> satisfies_filters f row) (mset (table_rows db))"
    by (rule query_events_rows)
  have "set (fst (query_events f db)) = set_mset (mset (fst (query_events f db)))" by simp
  also have "\<dots> = {row \<in> set (table_rows db). has_start_coordinates row \<and> satisfies_filters f row}"
    unfolding query_events_rows by auto
  finally show "\<forall>row \<in> set (fst (query_events f db)).
         start_latitude row \<noteq> None \<and> start_longitude row \<noteq> None \<and> satisfies_filters f row"
    by (auto simp: has_start_coordinates_def)
next
  assume u: "vs = [] \<or> ''All'' \<in> set vs"
  show "fst (query_events (f\<lparr>counties := Some vs\<rparr>) db) = fst (query_events (f\<lparr>counties := None\<rparr>) db)"
    using u by (intro query_events_unrestricted) (auto simp: satisfies_filters_def unrestricted_def)
  show "fst (query_events (f\<lparr>categories := Some vs\<rparr>) db) = fst (query_events (f\<lparr>categories := None\<rparr>) db)"
    using u by (intro query_events_unrestricted) (auto simp: satisfies_filters_def unrestricted_def)
  show "fst (query_events (f\<lparr>severities := Some vs\<rparr>) db) = fst (query_events (f\<lparr>severities := None\<rparr>) db)"
    using u by (intro query_events_unrestricted) (auto simp: satisfies_filters_def unrestricted_def)
qed

theorem query_events_filter_composition_witness:
  "mset (fst (query_events example_filters example_database))
     = {#store_event 1 ''Crash'' ''Major'' ''A'' (Some 864005) (Some 32) (Some (- 86))#}
   \<and> mset (fst (query_events (example_filters\<lparr>start_date := Some 946800, end_date := Some 864001\<rparr>)
              example_database))
     = {#store_event 1 ''Crash'' ''Major'' ''A'' (Some 864005) (Some 32) (Some (- 86))#}
   \<and> mset (fst (query_events (example_filters\<lparr>start_date := Some 950400\<rparr>) example_database)) = {#}
   \<and> fst (query_events (example_filters\<lparr>counties := Some [''B'', ''All'']\<rparr>) example_database)
     = fst (query_events (example_filters\<lparr>counties := None\<rparr>) example_database)"
  using query_events_filter_composition [of example_filters example_database "[''B'', ''All'']"]
        query_events_filter_composition
          [of "example_filters\<lparr>start_date := Some 946800, end_date := Some 864001\<rparr>"
              example_database "[]"]
        query_events_filter_composition
          [of "example_filters\<lparr>start_date := Some 950400\<rparr>" example_database "[]"]
  by (simp add: example_filters_def example_database_def no_filters_def store_event_def
        blank_event_def has_start_coordinates_def satisfies_filters_def unrestricted_def
        member_of_def on_or_after_def on_or_before_def)

subsection \<open>upsert_events\<close>

lemma not_null_violation_None:
  "not_null_violation r = None \<longleftrightarrow>
     category r \<noteq> None \<and> start_time r \<noteq> None \<and> start_latitude r \<noteq> None \<and> start_longitude r \<noteq> None"
  by (simp add: not_null_violation_def)

lemma upsert_one:
  assumes "not_null_violation r = None"
  shows "upsert_events [r] db =
           (Inr 1, \<lparr>table_rows = filter (\<lambda>x. event_id x \<noteq> event_id r) (table_rows db) @ [r],
                    connections_opened = connections_opened db + 1\<rparr>)"
  using assms by (simp add: upsert_events_def insert_or_replace_def get_connection_def Let_def)

lemma distinct_ids_filter:
  "distinct (map event_id tbl) \<Longrightarrow> distinct (map event_id (filter P tbl))"
  by (induction tbl) auto

lemma length_replace_present:
  assumes "distinct (map event_id tbl)" "\<exists>x \<in> set tbl. event_id x = i"
  shows "Suc (length (filter (\<lambda>x. event_id x \<noteq> i) tbl)) = length tbl"
  using assms
proof (induction tbl)
  case Nil
  then show ?case by simp
next
  case (Cons a tbl)
  show ?case
  proof (cases "event_id a = i")
    case True
    then have "i \<notin> event_id ` set tbl" using Cons.prems by auto
    then have "filter (\<lambda>x. event_id x \<noteq> i) tbl = tbl" by (auto simp: filter_id_conv)
    then show ?thesis using True by simp
  next
    case False
    then show ?thesis using Cons by auto
  qed
qed

lemma length_filter_eq_count: "length (filter (\<lambda>row. r = row) xs) = count (mset xs) r"
  by (induction xs) auto

text \<open>
  A record that the schema accepts (category, start time and start coordinates
  present): the upsert succeeds whether or not the identity is stored already; a query
  with filters the record satisfies returns exactly one row equal to it; the table
  holds exactly one row with its identity, the record itself; identities stay unique;
  and the record count is unchanged when the identity was present.
\<close>

lemma upsert_accepted_record:
  assumes "category r \<noteq> None" "start_time r \<noteq> None"
    "start_latitude r \<noteq> None" "start_longitude r \<noteq> None"
  shows "fst (upsert_events [r] db) = Inr 1
    \<and> (satisfies_filters f r \<longrightarrow>
         length (filter (\<lambda>row. r = row) (fst (query_events f (snd (upsert_events [r] db))))) = 1)
    \<and> filter (\<lambda>row. event_id row = event_id r) (table_rows (snd (upsert_events [r] db))) = [r]
    \<and> (distinct (map event_id (table_rows db)) \<longrightarrow>
         distinct (map event_id (table_rows (snd (upsert_events [r] db)))))
    \<and> (distinct (map event_id (table_rows db))
         \<and> (\<exists>old \<in> set (table_rows db). event_id old = event_id r) \<longrightarrow>
         fst (get_event_count (snd (upsert_events [r] db))) = fst (get_event_count db))"
proof -
  let ?tbl = "table_rows db"
  let ?tbl' = "filter (\<lambda>x. event_id x \<noteq> event_id r) ?tbl @ [r]"
  have nn: "not_null_violation r = None" using assms by (simp add: not_null_violation_None)
  have rows: "table_rows (snd (upsert_events [r] db)) = ?tbl'"
    by (simp add: upsert_one [OF nn])
  have ok: "fst (upsert_events [r] db) = Inr 1"
    by (simp add: upsert_one [OF nn])
  have coords: "has_start_coordinates r" using assms by (simp add: has_start_coordinates_def)
  have cnt: "count (mset ?tbl') r = 1"
    by (simp add: count_mset filter_empty_conv) 
  have trip: "length (filter (\<lambda>row. r = row) (fst (query_events f (snd (upsert_events [r] db))))) = 1"
    if "satisfies_filters f r"
  proof -
    have "length (filter (\<lambda>row. r = row) (fst (query_events f (snd (upsert_events [r] db)))))
          = count (mset (fst (query_events f (snd (upsert_events [r] db))))) r"
      by (rule length_filter_eq_count)
    also have "\<dots> = count (mset ?tbl') r"
      unfolding query_events_rows rows using that coords by simp
    finally show ?thesis using cnt by simp
  qed
  have one: "filter (\<lambda>row. event_id row = event_id r) ?tbl' = [r]"
    by (simp add: filter_empty_conv)
  have dist: "distinct (map event_id ?tbl')" if "distinct (map event_id ?tbl)"
    using distinct_ids_filter [OF that, of "\<lambda>x. event_id x \<noteq> event_id r"] by auto
  have len: "length ?tbl' = length ?tbl"
    if "distinct (map event_id ?tbl)" "\<exists>old \<in> set ?tbl. event_id old = event_id r"
    using length_replace_present [OF that] by simp
  show ?thesis
    using ok trip one dist len by (simp add: rows get_event_count_def get_connection_def Let_def)
qed

lemma upsert_replaces_stale_row:
  "category example_record \<noteq> None \<and> start_time example_record \<noteq> None
   \<and> start_latitude example_record \<noteq> None \<and> start_longitude example_record \<noteq> None
   \<and> satisfies_filters example_filters example_record
   \<and> distinct (map event_id (table_rows stale_database))
   \<and> fst (upsert_events [example_record] stale_database) = Inr 1
   \<and> length (filter (\<lambda>row. example_record = row)
        (fst (query_events example_filters (snd (upsert_events [example_record] stale_database))))) = 1
   \<and> filter (\<lambda>row. event_id row = 7)
        (table_rows (snd (upsert_events [example_record] stale_database))) = [example_record]
   \<and> distinct (map event_id (table_rows (snd (upsert_events [example_record] stale_database))))
   \<and> fst (get_event_count (snd (upsert_events [example_record] stale_database))) = 2
   \<and> fst (get_event_count stale_database) = 2"
  using upsert_accepted_record [of example_record stale_database example_filters]
  by (simp add: example_record_def stale_database_def example_filters_def no_filters_def
        store_event_def blank_event_def satisfies_filters_def unrestricted_def member_of_def
        on_or_after_def on_or_before_def get_event_count_def get_connection_def)

text \<open>
  A batch with a record that has a null in a NOT NULL column: the statement raises, no
  row of the batch is stored and the table is as it was.
\<close>

lemma executemany_refused:
  "\<exists>e \<in> set events. not_null_violation e \<noteq> None \<Longrightarrow> \<exists>err. executemany events tbl = Inl err"
proof (induction events arbitrary: tbl)
  case Nil
  then show ?case by simp
next
  case (Cons e events)
  show ?case
  proof (cases "not_null_violation e")
    case None
    then have "\<exists>x \<in> set events. not_null_violation x \<noteq> None" using Cons.prems by auto
    then show ?thesis using None Cons.IH by (simp add: insert_or_replace_def)
  next
    case (Some col)
    then show ?thesis by (simp add: insert_or_replace_def)
  qed
qed

lemma upsert_refused_batch:
  assumes "\<exists>e \<in> set events. not_null_violation e \<noteq> None"
  shows "(\<exists>err. fst (upsert_events events db) = Inl err)
         \<and> table_rows (snd (upsert_events events db)) = table_rows db"
proof -
  have ne: "events \<noteq> []" using assms by auto
  obtain err where "executemany events (table_rows db) = Inl err"
    using executemany_refused [OF assms] by blast
  then show ?thesis using ne by (simp add: upsert_events_def get_connection_def Let_def)
qed

text \<open>
  C6, at a record the ingestion builds itself. \<^verbatim>\<open>parse_datetime\<close> answers None for a
  missing or malformed start, and \<^verbatim>\<open>get_api_response\<close> stores it in the record
  unguarded. The record has start coordinates and satisfies the empty filters, so the
  claim promises one equal row after the upsert; the upsert raises the integrity error
  of the NOT NULL column \<^verbatim>\<open>start_time\<close> and the query returns no row. A valid
  record in the same batch is lost with it, and the same happens to the rows that
  \<^verbatim>\<open>get_api_response\<close> returns for an upstream event without a start.
\<close>

theorem upsert_refuses_record_without_start_time:
  "fst (upsert_events [record_without_start_time] empty_database)
     = Inl (IntegrityError ''start_time'')
   \<and> satisfies_filters no_filters record_without_start_time
   \<and> has_start_coordinates record_without_start_time
   \<and> fst (query_events no_filters
            (snd (upsert_events [record_without_start_time] empty_database))) = []
   \<and> fst (upsert_events [example_record, record_without_start_time] empty_database)
     = Inl (IntegrityError ''start_time'')
   \<and> table_rows (snd (upsert_events [example_record, record_without_start_time] empty_database))
     = []
   \<and> map start_time (get_api_response (\<lambda>s. None) (Json [api_event_at 7 33 (- 87)])) = [None]
   \<and> fst (upsert_events (get_api_response (\<lambda>s. None) (Json [api_event_at 7 33 (- 87)]))
            empty_database)
     = Inl (IntegrityError ''start_time'')"
  by (simp add: upsert_events_def insert_or_replace_def not_null_violation_def get_connection_def
        record_without_start_time_def example_record_def store_event_def blank_event_def
        empty_database_def satisfies_filters_def no_filters_def on_or_after_def on_or_before_def
        unrestricted_def has_start_coordinates_def query_events_def order_by_start_time_desc_def
        Let_def get_api_response_def List.map_filter_simps event_dict_def api_event_at_def
        or_empty_def empty_location_def falsy_def parse_datetime_def)

subsection \<open>Hot-spot clustering\<close>

text \<open>The inner loop appends, in order, the later indices that are unassigned and near the seed.\<close>

lemma absorb_later_filter:
  assumes "distinct js"
  shows "absorb_later coords r i js (cp, asg) =
           (cp @ filter (\<lambda>j. j \<notin> asg \<and> within_radius coords r i j) js,
            asg \<union> set (filter (\<lambda>j. j \<notin> asg \<and> within_radius coords r i j) js))"
  using assms
proof (induction js arbitrary: cp asg)
  case Nil
  then show ?case by simp
next
  case (Cons j js)
  have d: "distinct js" and nj: "j \<notin> set js" using Cons.prems by auto
  show ?case
  proof (cases "j \<in> asg")
    case True
    then show ?thesis using Cons.IH [OF d, of cp asg] by simp
  next
    case False
    show ?thesis
    proof (cases "within_radius coords r i j")
      case True
      have same: "filter (\<lambda>k. k \<noteq> j \<and> k \<notin> asg \<and> within_radius coords r i k) js
                  = filter (\<lambda>k. k \<notin> asg \<and> within_radius coords r i k) js"
        using nj by (intro filter_cong) auto
      show ?thesis
        using False True nj Cons.IH [OF d, of "cp @ [j]" "insert j asg"]
        by (auto simp: same)
    next
      case nw: False
      then show ?thesis using False Cons.IH [OF d, of cp asg] by simp
    qed
  qed
qed

text \<open>
  The outer loop from index \<open>i\<close> on, against the specification's recursion over the
  indices from \<open>i\<close> on that are still unassigned.
\<close>

lemma seed_loop_refines:
  "i \<le> length coords \<Longrightarrow>
   cluster_id_column (seed_loop coords r [i ..< length coords] st) =
     commit_groups
       (seed_groups (within_radius coords r)
          (filter (\<lambda>j. j \<notin> assigned st) [i ..< length coords]))
       (cluster_id st) (cluster_id_column st)"
proof (induction "length coords - i" arbitrary: i st)
  case 0
  then show ?case by simp
next
  case (Suc d)
  let ?n = "length coords"
  have lt: "i < ?n" using Suc.hyps(2) by simp
  have upt: "[i ..< ?n] = i # [Suc i ..< ?n]" using lt by (simp add: upt_conv_Cons)
  have d: "d = ?n - Suc i" using Suc.hyps(2) by simp
  have le: "Suc i \<le> ?n" using lt by simp
  show ?case
  proof (cases "i \<in> assigned st")
    case True
    then show ?thesis using Suc.hyps(1) [OF d le, of st] by (simp add: upt)
  next
    case False
    let ?P = "filter (\<lambda>j. j \<notin> assigned st) [Suc i ..< ?n]"
    let ?g = "i # filter (within_radius coords r i) ?P"
    let ?asg = "insert i (assigned st) \<union> set (filter (within_radius coords r i) ?P)"
    have flt: "filter (\<lambda>j. j \<noteq> i \<and> j \<notin> assigned st \<and> within_radius coords r i j) [Suc i ..< ?n]
               = filter (within_radius coords r i) ?P"
      by (auto simp: filter_filter intro!: filter_cong)
    have ab: "absorb_later coords r i [i + 1 ..< ?n] ([i], insert i (assigned st)) = (?g, ?asg)"
      using absorb_later_filter [of "[Suc i ..< ?n]" coords r i "[i]" "insert i (assigned st)"]
      by (auto simp: flt)
    have pend: "filter (\<lambda>j. j \<notin> ?asg) [Suc i ..< ?n]
                = filter (\<lambda>j. \<not> within_radius coords r i j) ?P"
      by (auto simp: filter_filter intro!: filter_cong)
    have sg: "seed_groups (within_radius coords r) (filter (\<lambda>j. j \<notin> assigned st) [i ..< ?n])
              = ?g # seed_groups (within_radius coords r) (filter (\<lambda>j. j \<notin> ?asg) [Suc i ..< ?n])"
    proof -
      have "filter (\<lambda>j. j \<notin> assigned st) [i ..< ?n] = i # ?P"
        using False by (simp add: upt)
      then have "seed_groups (within_radius coords r) (filter (\<lambda>j. j \<notin> assigned st) [i ..< ?n])
                 = ?g # seed_groups (within_radius coords r)
                          (filter (\<lambda>j. \<not> within_radius coords r i j) ?P)"
        by (simp only: seed_groups.simps)
      then show ?thesis by (simp only: pend)
    qed
    show ?thesis
    proof (cases "length ?g \<ge> 3")
      case True
      let ?st' = "\<lparr>assigned = ?asg,
                   cluster_id_column = write_cluster_id ?g (cluster_id st) (cluster_id_column st),
                   cluster_id = cluster_id st + 1\<rparr>"
      have "seed_loop coords r [i ..< ?n] st = seed_loop coords r [Suc i ..< ?n] ?st'"
        using False True ab by (simp add: upt MIN_CLUSTER_SIZE_def)
      then show ?thesis
        using Suc.hyps(1) [OF d le, of ?st'] True
        by (simp add: sg write_cluster_id_def)
    next
      case small: False
      let ?st' = "st\<lparr>assigned := ?asg\<rparr>"
      have "seed_loop coords r [i ..< ?n] st = seed_loop coords r [Suc i ..< ?n] ?st'"
        using False small ab by (simp add: upt MIN_CLUSTER_SIZE_def)
      then show ?thesis
        using Suc.hyps(1) [OF d le, of ?st'] small
        by (simp add: sg)
    qed
  qed
qed

lemma within_radius_spec:
  "within_radius coords r = (\<lambda>seed j. distance_at_most (coords ! seed) (coords ! j) r)"
  by (intro ext) (simp add: within_radius_def distance_at_most_def)

lemma find_crash_clusters_ids_spec:
  "find_crash_clusters_ids crashes r = spec_cluster_ids (dropna_coords crashes) r"
  using seed_loop_refines [of 0 "dropna_coords crashes" r
          "\<lparr>assigned = {}, cluster_id_column = replicate (length (dropna_coords crashes)) (- 1),
            cluster_id = 0\<rparr>"]
  by (simp add: find_crash_clusters_ids_def spec_cluster_ids_def Let_def within_radius_spec)

lemma mset_seed_groups: "mset (concat (seed_groups near xs)) = mset xs"
proof (induction near xs rule: seed_groups.induct)
  case (1 near)
  then show ?case by simp
next
  case (2 near seed later)
  have "mset (filter (near seed) later) + mset (filter (\<lambda>j. \<not> near seed j) later) = mset later"
    by (simp only: mset_filter multiset_partition [symmetric])
  then show ?case using 2 by (simp add: add.assoc)
qed


lemma fold_update_other:
  "j \<notin> set g \<Longrightarrow> fold (\<lambda>idx c. c[idx := k]) g col ! j = col ! j"
  by (induction g arbitrary: col) auto

lemma fold_update_length: "length (fold (\<lambda>idx c. c[idx := k]) g col) = length col"
  by (induction g arbitrary: col) auto

lemma fold_update_member:
  "j \<in> set g \<Longrightarrow> \<forall>x \<in> set g. x < length col \<Longrightarrow> fold (\<lambda>idx c. c[idx := k]) g col ! j = k"
proof (induction g arbitrary: col)
  case Nil
  then show ?case by simp
next
  case (Cons x g)
  show ?case
  proof (cases "j \<in> set g")
    case True
    then show ?thesis using Cons.IH [of "col[x := k]"] Cons.prems by simp
  next
    case False
    then have "j = x" using Cons.prems by simp
    then show ?thesis using False Cons.prems by (simp add: fold_update_other)
  qed
qed

lemma commit_groups_other:
  "j \<notin> set (concat gs) \<Longrightarrow> commit_groups gs k col ! j = col ! j"
  by (induction gs k col rule: commit_groups.induct) (auto simp: fold_update_other)

lemma commit_groups_committed_iff:
  assumes "distinct (concat gs)"
    and "\<forall>j \<in> set (concat gs). j < length col \<and> col ! j = - 1"
    and "0 \<le> k"
  shows "\<forall>g \<in> set gs. \<forall>j \<in> set g. (commit_groups gs k col ! j \<noteq> - 1) = (3 \<le> length g)"
  using assms
proof (induction gs k col rule: commit_groups.induct)
  case (1 next_id column)
  then show ?case by simp
next
  case (2 g gs next_id column)
  have dg: "distinct (concat gs)" and disj: "set g \<inter> set (concat gs) = {}"
    using "2.prems"(1) by auto
  show ?case
  proof (cases "3 \<le> length g")
    case True
    let ?col = "fold (\<lambda>idx col. col[idx := next_id]) g column"
    have inv: "\<forall>j \<in> set (concat gs). j < length ?col \<and> ?col ! j = - 1"
    proof
      fix j assume j: "j \<in> set (concat gs)"
      then have "j \<notin> set g" using disj by auto
      then have "?col ! j = column ! j" by (rule fold_update_other)
      moreover have "j < length column \<and> column ! j = - 1" using j "2.prems"(2) by simp
      ultimately show "j < length ?col \<and> ?col ! j = - 1" by (simp add: fold_update_length)
    qed
    have rest: "\<forall>g' \<in> set gs. \<forall>j \<in> set g'.
                  (commit_groups gs (next_id + 1) ?col ! j \<noteq> - 1) = (3 \<le> length g')"
      using "2.IH"(1) [OF True dg inv] "2.prems"(3) by simp
    have here: "\<forall>j \<in> set g. commit_groups gs (next_id + 1) ?col ! j = next_id"
    proof
      fix j assume j: "j \<in> set g"
      then have "j \<notin> set (concat gs)" using disj by auto
      then have "commit_groups gs (next_id + 1) ?col ! j = ?col ! j"
        by (rule commit_groups_other)
      also have "\<dots> = next_id"
        using j "2.prems"(2) by (intro fold_update_member) auto
      finally show "commit_groups gs (next_id + 1) ?col ! j = next_id" .
    qed
    show ?thesis using True rest here "2.prems"(3) by auto
  next
    case False
    have inv: "\<forall>j \<in> set (concat gs). j < length column \<and> column ! j = - 1"
      using "2.prems"(2) by auto
    have rest: "\<forall>g' \<in> set gs. \<forall>j \<in> set g'.
                  (commit_groups gs next_id column ! j \<noteq> - 1) = (3 \<le> length g')"
      using "2.IH"(2) [OF False dg inv "2.prems"(3)] .
    have here: "\<forall>j \<in> set g. commit_groups gs next_id column ! j = - 1"
    proof
      fix j assume j: "j \<in> set g"
      then have "j \<notin> set (concat gs)" using disj by auto
      then have "commit_groups gs next_id column ! j = column ! j"
        by (rule commit_groups_other)
      then show "commit_groups gs next_id column ! j = - 1"
        using j "2.prems"(2) by auto
    qed
    show ?thesis using False rest here by auto
  qed
qed

text \<open>When the outer loop ends, every index is in \<^verbatim>\<open>assigned\<close>.\<close>

lemma seed_loop_assigns_all:
  "i \<le> length coords \<Longrightarrow>
   assigned (seed_loop coords r [i ..< length coords] st) = assigned st \<union> {i ..< length coords}"
proof (induction "length coords - i" arbitrary: i st)
  case 0
  then show ?case by simp
next
  case (Suc d)
  let ?n = "length coords"
  have lt: "i < ?n" using Suc.hyps(2) by simp
  have upt: "[i ..< ?n] = i # [Suc i ..< ?n]" using lt by (simp add: upt_conv_Cons)
  have d: "d = ?n - Suc i" using Suc.hyps(2) by simp
  have le: "Suc i \<le> ?n" using lt by simp
  have split: "{i ..< ?n} = insert i {Suc i ..< ?n}" using lt by auto
  show ?case
  proof (cases "i \<in> assigned st")
    case True
    then show ?thesis using Suc.hyps(1) [OF d le, of st] by (auto simp: upt split)
  next
    case False
    let ?new = "filter (\<lambda>j. j \<notin> insert i (assigned st) \<and> within_radius coords r i j) [Suc i ..< ?n]"
    let ?g = "[i] @ ?new"
    let ?asg = "insert i (assigned st) \<union> set ?new"
    have ab: "absorb_later coords r i [i + 1 ..< ?n] ([i], insert i (assigned st)) = (?g, ?asg)"
      using absorb_later_filter [of "[Suc i ..< ?n]" coords r i "[i]" "insert i (assigned st)"]
      by simp
    have sub: "set ?new \<subseteq> {Suc i ..< ?n}" by auto
    have fin: "?asg \<union> {Suc i ..< ?n} = assigned st \<union> {i ..< ?n}"
      using sub unfolding split by blast
    show ?thesis
    proof (cases "length ?g \<ge> MIN_CLUSTER_SIZE")
      case True
      let ?st' = "\<lparr>assigned = ?asg,
                   cluster_id_column = write_cluster_id ?g (cluster_id st) (cluster_id_column st),
                   cluster_id = cluster_id st + 1\<rparr>"
      have "seed_loop coords r [i ..< ?n] st = seed_loop coords r [Suc i ..< ?n] ?st'"
        unfolding upt using False True ab by (simp del: upt_Suc)
      then show ?thesis
        using Suc.hyps(1) [OF d le, of ?st'] fin by simp
    next
      case small: False
      let ?st' = "st\<lparr>assigned := ?asg\<rparr>"
      have "seed_loop coords r [i ..< ?n] st = seed_loop coords r [Suc i ..< ?n] ?st'"
        unfolding upt using False small ab by (simp del: upt_Suc)
      then show ?thesis
        using Suc.hyps(1) [OF d le, of ?st'] fin by simp
    qed
  qed
qed

lemma seed_groups_members_near_seed:
  "\<forall>g \<in> set (seed_groups near xs). g \<noteq> [] \<and> (\<forall>j \<in> set (tl g). near (hd g) j)"
  by (induction near xs rule: seed_groups.induct) auto

text \<open>
  C2. The cluster ids that \<^verbatim>\<open>find_crash_clusters\<close> computes are those of the
  seed-centred pass of the specification: incidents are taken in input order; the first
  unassigned one is a seed and opens a group; a later unassigned incident joins the
  group exactly when its haversine distance to the seed is at most the radius (for
  every radius, 0.5 miles by default); the group gets the next cluster id exactly when
  it has at least 3 members; every member leaves the unassigned list whether or not
  the group is committed. The groups partition the incidents, so no member of a group
  (committed or not) is in a later group, and no seed is a member of an earlier one;
  every member of a group is within the radius of the group's seed; an incident has a
  cluster id other than -1 exactly when its group has at least 3 members; and when the
  loops end every incident is marked assigned, clustered or not.
\<close>

theorem find_crash_clusters_seed_centered:
  "(let coords = dropna_coords crashes;
        n = length coords;
        near = (\<lambda>seed j. distance_at_most (coords ! seed) (coords ! j) radius_miles);
        groups = seed_groups near [0 ..< n]
    in find_crash_clusters_ids crashes radius_miles = commit_groups groups 0 (replicate n (- 1))
       \<and> mset (concat groups) = mset [0 ..< n]
       \<and> (\<forall>g \<in> set groups. g \<noteq> [] \<and> (\<forall>j \<in> set (tl g). near (hd g) j))
       \<and> (\<forall>g \<in> set groups. \<forall>j \<in> set g.
             (find_crash_clusters_ids crashes radius_miles ! j \<noteq> - 1) = (3 \<le> length g))
       \<and> assigned (seed_loop coords radius_miles [0 ..< n]
                     \<lparr>assigned = {}, cluster_id_column = replicate n (- 1), cluster_id = 0\<rparr>)
           = {0 ..< n})"
proof -
  define coords where "coords = dropna_coords crashes"
  define near where
    "near = (\<lambda>seed j. distance_at_most (coords ! seed) (coords ! j) radius_miles)"
  define groups where "groups = seed_groups near [0 ..< length coords]"
  have ids: "find_crash_clusters_ids crashes radius_miles
               = commit_groups groups 0 (replicate (length coords) (- 1))"
    by (simp add: find_crash_clusters_ids_spec spec_cluster_ids_def coords_def groups_def near_def)
  have part: "mset (concat groups) = mset [0 ..< length coords]"
    unfolding groups_def by (rule mset_seed_groups)
  have seeds: "\<forall>g \<in> set groups. g \<noteq> [] \<and> (\<forall>j \<in> set (tl g). near (hd g) j)"
    unfolding groups_def by (rule seed_groups_members_near_seed)
  have dist: "distinct (concat groups)"
    using part by (metis distinct_upt mset_eq_imp_distinct_iff)
  have rng: "set (concat groups) = {0 ..< length coords}"
    using part by (metis mset_eq_setD set_upt)
  have init: "\<forall>j \<in> set (concat groups).
                j < length (replicate (length coords) (- 1 :: int))
                \<and> replicate (length coords) (- 1 :: int) ! j = - 1"
    unfolding rng by simp
  have sizes: "\<forall>g \<in> set groups. \<forall>j \<in> set g.
      (find_crash_clusters_ids crashes radius_miles ! j \<noteq> - 1) = (3 \<le> length g)"
    unfolding ids using commit_groups_committed_iff [OF dist init] by simp
  have all: "assigned (seed_loop coords radius_miles [0 ..< length coords]
                     \<lparr>assigned = {}, cluster_id_column = replicate (length coords) (- 1),
                      cluster_id = 0\<rparr>)
           = {0 ..< length coords}"
    using seed_loop_assigns_all [of 0 coords radius_miles] by simp
  show ?thesis
    unfolding Let_def coords_def [symmetric] near_def [symmetric] groups_def [symmetric]
    by (intro conjI ids part seeds [unfolded near_def] sizes all)
qed

lemma distance_at_most_same: "distance_at_most p p r = (0 \<le> r)"
  by (simp add: distance_at_most_def haversine_distance_def haversine_a_same central_angle_0)

lemma haversine_a_antipodes: "haversine_a 0 0 0 180 = 1"
  by (simp add: haversine_a_def radians_def)

lemma central_angle_1: "central_angle 1 = Some pi"
  by (simp add: central_angle_def np_sqrt_def np_arcsin_def)

lemma distance_at_most_antipodes:
  "distance_at_most (0, 0) (0, 180) (1 / 2) = False"
  "distance_at_most (0, 180) (0, 0) (1 / 2) = False"
proof -
  have "\<not> 3959 * pi \<le> 1 / 2" using pi_ge_two by simp
  then show "distance_at_most (0, 0) (0, 180) (1 / 2) = False"
    by (simp add: distance_at_most_def haversine_distance_def haversine_a_antipodes central_angle_1)
  then show "distance_at_most (0, 180) (0, 0) (1 / 2) = False"
    by (simp add: distance_at_most_def haversine_distance_def haversine_a_sym [of 0 180 0 0])
qed

lemma example_coords:
  "dropna_coords example_crashes = [(0, 0), (0, 180), (0, 0), (0, 0), (0, 180)]"
  by (simp add: dropna_coords_def example_crashes_def crash_at_def blank_event_def
        List.map_filter_simps)



theorem find_crash_clusters_seed_centered_witness:
  "dropna_coords example_crashes = [(0, 0), (0, 180), (0, 0), (0, 0), (0, 180)]
   \<and> seed_groups
        (\<lambda>seed j. distance_at_most (dropna_coords example_crashes ! seed)
                    (dropna_coords example_crashes ! j) DEFAULT_CLUSTER_RADIUS_MILES)
        [0 ..< length (dropna_coords example_crashes)] = [[0, 2, 3], [1, 4]]
   \<and> find_crash_clusters_ids example_crashes DEFAULT_CLUSTER_RADIUS_MILES = [0, - 1, 0, 0, - 1]
   \<and> assigned (seed_loop (dropna_coords example_crashes) DEFAULT_CLUSTER_RADIUS_MILES
                 [0 ..< length (dropna_coords example_crashes)]
                 \<lparr>assigned = {},
                  cluster_id_column = replicate (length (dropna_coords example_crashes)) (- 1),
                  cluster_id = 0\<rparr>)
       = {0 ..< length (dropna_coords example_crashes)}
   \<and> length (dropna_coords example_crashes) = 5"
proof -
  let ?c = "dropna_coords example_crashes"
  let ?groups = "seed_groups
        (\<lambda>seed j. distance_at_most (?c ! seed) (?c ! j) DEFAULT_CLUSTER_RADIUS_MILES)
        [0 ..< length ?c]"
  note inst = find_crash_clusters_seed_centered
                [of example_crashes DEFAULT_CLUSTER_RADIUS_MILES, unfolded Let_def]
  have ids: "find_crash_clusters_ids example_crashes DEFAULT_CLUSTER_RADIUS_MILES
               = commit_groups ?groups 0 (replicate (length ?c) (- 1))"
    using inst by (elim conjE)
  have asg: "assigned (seed_loop ?c DEFAULT_CLUSTER_RADIUS_MILES [0 ..< length ?c]
                 \<lparr>assigned = {}, cluster_id_column = replicate (length ?c) (- 1),
                  cluster_id = 0\<rparr>)
             = {0 ..< length ?c}"
    using inst by (elim conjE)
  have groups: "?groups = [[0, 2, 3], [1, 4]]"
    by (simp add: example_coords DEFAULT_CLUSTER_RADIUS_MILES_def
          distance_at_most_same distance_at_most_antipodes)
  have col: "find_crash_clusters_ids example_crashes DEFAULT_CLUSTER_RADIUS_MILES
               = [0, - 1, 0, 0, - 1]"
    unfolding ids groups by (simp add: example_coords)
  show ?thesis
    using example_coords groups col asg by simp
qed

end
